theory Spec2Isabelle
  imports Main "HOL-Library.Multiset" "HOL-Library.Sublist"
begin

section \<open>Values exchanged over HTTP\<close>

text \<open>
  The coordinator stores whatever JSON value a worker answers with and later tests it
  for truthiness (\<open>results[dep]\<close>, \<open>if (result)\<close>, \<open>results.research || {}\<close>).
  A character stands for one code unit of a JavaScript string.  Numbers are kept as
  integers: the program only ever asks whether a number is zero.
\<close>

datatype json =
    JNull
  | JBool bool
  | JNum int
  | JStr string
  | JArr "json list"
  | JObj "(string \<times> json) list"

fun truthy :: "json \<Rightarrow> bool" where
  "truthy JNull = False"
| "truthy (JBool b) = b"
| "truthy (JNum n) = (n \<noteq> 0)"
| "truthy (JStr s) = (s \<noteq> [])"
| "truthy (JArr _) = True"
| "truthy (JObj _) = True"

text \<open>Decimal rendering of a number inside a template literal.\<close>

definition digit_char :: "nat \<Rightarrow> char" where
  "digit_char n = ''0123456789'' ! (n mod 10)"

function string_of_nat :: "nat \<Rightarrow> string" where
  "string_of_nat n =
     (if n < 10 then [digit_char n] else string_of_nat (n div 10) @ [digit_char n])"
  by pat_completeness auto
termination
  by (relation "measure (\<lambda>n. n)") auto

declare string_of_nat.simps [simp del]

section \<open>Subtasks and tasks (shared/state.js)\<close>

datatype status = Pending | InProgress | Completed | Failed

text \<open>The object literal that \<open>decomposeQuery\<close> builds.\<close>

record subtask_spec =
  sp_type :: string
  sp_description :: string
  sp_capability :: string
  sp_priority :: int
  sp_dependsOn :: "string list option"

text \<open>The object that \<open>addSubtask\<close> pushes onto \<open>task.subtasks\<close>.\<close>

record subtask =
  st_id :: string
  st_status :: status
  st_createdAt :: int
  st_updatedAt :: "int option"
  st_type :: string
  st_description :: string
  st_capability :: string
  st_priority :: int
  st_dependsOn :: "string list option"
  st_result :: "json option"

record stored_result =
  sr_data :: json
  sr_timestamp :: int

record report =
  rp_taskId :: string
  rp_query :: string
  rp_depth :: string
  rp_completedAt :: int
  rp_findings :: json
  rp_summary :: json

record task =
  t_id :: string
  t_status :: status
  t_createdAt :: int
  t_updatedAt :: int
  t_query :: string
  t_depth :: string
  t_type :: string
  t_subtasks :: "subtask list"
  t_results :: "string \<rightharpoonup> stored_result"
  t_report :: "report option"

record session =
  se_id :: string
  se_createdAt :: int
  se_updatedAt :: int
  se_data :: json

datatype agent_state = Online | Offline

record agent_status =
  as_name :: string
  as_status :: agent_state
  as_lastSeen :: int
  as_url :: string
  as_capabilities :: "string list"

record state_manager =
  tasks :: "string \<rightharpoonup> task"
  sessions :: "string \<rightharpoonup> session"
  agentStatus :: "string \<rightharpoonup> agent_status"

datatype error =
    TaskNotFound string
  | SubtaskNotFound string
  | FetchError string
  | NullProperty string

text \<open>
  The \<open>message\<close> property of the thrown \<open>Error\<close>; \<open>NullProperty\<close> is the
  \<open>TypeError\<close> of reading a property of \<open>null\<close>.
\<close>

fun message :: "error \<Rightarrow> string" where
  "message (TaskNotFound taskId) = ''Task '' @ taskId @ '' not found''"
| "message (SubtaskNotFound subtaskId) = ''Subtask '' @ subtaskId @ '' not found''"
| "message (FetchError m) = m"
| "message (NullProperty p) =
     ''Cannot read properties of null (reading '' @ [CHR 0x27] @ p @ [CHR 0x27] @ '')''"

definition new_state_manager :: state_manager where
  "new_state_manager = \<lparr>tasks = Map.empty, sessions = Map.empty, agentStatus = Map.empty\<rparr>"






text \<open>
  \<open>subtasks.find(st => st.id === subtaskId)\<close> followed by assignments to the object
  found: the first element with that id is replaced, \<open>None\<close> when there is none.
\<close>

fun update_first :: "('a \<Rightarrow> bool) \<Rightarrow> ('a \<Rightarrow> 'a) \<Rightarrow> 'a list \<Rightarrow> 'a list option" where
  "update_first P f [] = None"
| "update_first P f (x # xs) =
     (if P x then Some (f x # xs) else map_option ((#) x) (update_first P f xs))"

text \<open>\<open>if (result) subtask.result = result\<close>: a missing or falsy result is not stored.\<close>

definition set_result :: "json option \<Rightarrow> subtask \<Rightarrow> subtask" where
  "set_result res st =
     (case res of
        None \<Rightarrow> st
      | Some r \<Rightarrow> if truthy r then st\<lparr>st_result := Some r\<rparr> else st)"

text \<open>The assignments \<open>updateSubtask\<close> makes to the subtask it has found.\<close>

definition mark :: "status \<Rightarrow> int \<Rightarrow> json option \<Rightarrow> subtask \<Rightarrow> subtask" where
  "mark st now res x = set_result res (x\<lparr>st_status := st, st_updatedAt := Some now\<rparr>)"

definition updateSubtask :: "int \<Rightarrow> string \<Rightarrow> string \<Rightarrow> status \<Rightarrow> json option \<Rightarrow> state_manager \<Rightarrow> error + state_manager" where
  "updateSubtask now taskId subtaskId st res s =
     (case tasks s taskId of
        None \<Rightarrow> Inl (TaskNotFound taskId)
      | Some task \<Rightarrow>
          (case update_first (\<lambda>x. st_id x = subtaskId) (mark st now res) (t_subtasks task) of
             None \<Rightarrow> Inl (SubtaskNotFound subtaskId)
           | Some sts \<Rightarrow>
               Inr (s\<lparr>tasks := (tasks s)(taskId \<mapsto>
                      task\<lparr>t_subtasks := sts, t_updatedAt := now\<rparr>)\<rparr>)))"

definition storeResult :: "int \<Rightarrow> string \<Rightarrow> string \<Rightarrow> json \<Rightarrow> state_manager \<Rightarrow> error + state_manager" where
  "storeResult now taskId agentName res s =
     (case tasks s taskId of
        None \<Rightarrow> Inl (TaskNotFound taskId)
      | Some task \<Rightarrow>
          Inr (s\<lparr>tasks := (tasks s)(taskId \<mapsto>
                 task\<lparr>t_results := (t_results task)(agentName \<mapsto>
                         \<lparr>sr_data = res, sr_timestamp = now\<rparr>),
                      t_updatedAt := now\<rparr>)\<rparr>))"

definition areSubtasksComplete :: "string \<Rightarrow> state_manager \<Rightarrow> bool" where
  "areSubtasksComplete taskId s =
     (case tasks s taskId of
        None \<Rightarrow> False
      | Some task \<Rightarrow>
          if length (t_subtasks task) = 0 then False
          else list_all (\<lambda>st. st_status st = Completed \<or> st_status st = Failed) (t_subtasks task))"

definition registerAgentStatus :: "int \<Rightarrow> string \<Rightarrow> string \<Rightarrow> string list \<Rightarrow> state_manager \<Rightarrow> state_manager" where
  "registerAgentStatus now agentName url caps s =
     s\<lparr>agentStatus := (agentStatus s)(agentName \<mapsto>
        \<lparr>as_name = agentName, as_status = Online, as_lastSeen = now,
         as_url = url, as_capabilities = caps\<rparr>)\<rparr>"

text \<open>
  \<open>cleanup(maxAge)\<close>: the three sweeps over tasks, sessions and agent statuses.  A sweep
  over a \<open>Map\<close> decides each entry on its own, so it is written entry by entry.
\<close>

definition sweep_task :: "int \<Rightarrow> int \<Rightarrow> task \<Rightarrow> task option" where
  "sweep_task maxAge now task =
     (if now - t_updatedAt task > maxAge \<and>
         (t_status task = Completed \<or> t_status task = Failed)
      then None else Some task)"

definition sweep_session :: "int \<Rightarrow> int \<Rightarrow> session \<Rightarrow> session option" where
  "sweep_session maxAge now se =
     (if now - se_updatedAt se > maxAge then None else Some se)"

definition sweep_agent :: "int \<Rightarrow> agent_status \<Rightarrow> agent_status" where
  "sweep_agent now a =
     (if now - as_lastSeen a > 60000 then a\<lparr>as_status := Offline\<rparr> else a)"

definition cleanup :: "int \<Rightarrow> int \<Rightarrow> state_manager \<Rightarrow> state_manager" where
  "cleanup maxAge now s =
     \<lparr>tasks = (\<lambda>k. Option.bind (tasks s k) (sweep_task maxAge now)),
      sessions = (\<lambda>k. Option.bind (sessions s k) (sweep_session maxAge now)),
      agentStatus = (\<lambda>k. map_option (sweep_agent now) (agentStatus s k))\<rparr>"

text \<open>The default argument \<open>maxAge = 3600000\<close>, as the five-minute timer calls it.\<close>

definition cleanup_default :: "int \<Rightarrow> state_manager \<Rightarrow> state_manager" where
  "cleanup_default now s = cleanup 3600000 now s"

section \<open>Decomposition (coordinator)\<close>

definition decomposeQuery :: "string \<Rightarrow> string \<Rightarrow> subtask_spec list" where
  "decomposeQuery query depth =
     [\<lparr>sp_type = ''research'',
       sp_description = ''Gather information about: '' @ query,
       sp_capability = ''search'',
       sp_priority = 1,
       sp_dependsOn = None\<rparr>]
     @ (if depth = ''comprehensive'' \<or> depth = ''detailed''
        then [\<lparr>sp_type = ''summarize'',
               sp_description = ''Summarize research findings'',
               sp_capability = ''summarize'',
               sp_priority = 2,
               sp_dependsOn = Some [''research'']\<rparr>]
        else [])"

section \<open>Delegation (coordinator)\<close>

record agent_info =
  ag_name :: string
  ag_url :: string
  ag_capabilities :: "string list"
  ag_lastSeen :: int

text \<open>
  The coordinator's \<open>agents\<close> is a \<open>Map\<close> keyed by name: iteration follows insertion
  order and \<open>set\<close> on an existing key keeps the key's position.
\<close>

type_synonym registry = "(string \<times> agent_info) list"

fun map_set :: "'k \<Rightarrow> 'v \<Rightarrow> ('k \<times> 'v) list \<Rightarrow> ('k \<times> 'v) list" where
  "map_set k v [] = [(k, v)]"
| "map_set k v (p # ps) = (if fst p = k then (k, v) # ps else p # map_set k v ps)"

record config =
  port :: nat
  serverUrl :: string
  maxConcurrentTasks :: int
  taskTimeout :: int
  retryAttempts :: int
  retryDelay :: int

text \<open>
  One \<open>fetch\<close> call: the URL, the JSON body (\<open>taskId\<close>, the spread subtask,
  \<open>previousResults\<close>) and the abort timeout.
\<close>

record http_request =
  rq_url :: string
  rq_taskId :: string
  rq_subtask :: subtask
  rq_previousResults :: "(string \<times> json option) list"
  rq_timeout :: int

datatype body = Json json | Malformed string

datatype fetch_outcome = NetworkFailure string | HttpResponse nat body

text \<open>
  What the program cannot decide is a parameter: \<open>fetch e n rq\<close> is how the \<open>n\<close>-th POST
  of the process ends, \<open>clock e n\<close> is what \<open>Date.now()\<close> returns once \<open>n\<close> POSTs have
  been made.  Both are arbitrary, so every sequence of worker answers is covered.
\<close>

record env =
  fetch :: "nat \<Rightarrow> http_request \<Rightarrow> fetch_outcome"
  clock :: "nat \<Rightarrow> int"

text \<open>
  The coordinator process: its agent registry, the state manager singleton and the
  POSTs it has sent so far.  Console output is not part of the model.
\<close>

record world =
  agents :: registry
  sm :: state_manager
  posts :: "http_request list"

text \<open>
  The \<open>results\<close> object of a run, keyed by subtask type.  It is modelled by the
  properties the loop assigns: reading a key that was never assigned gives \<open>undefined\<close>.
  (The property names every JavaScript object inherits, such as \<open>constructor\<close>, are no
  subtask types of this program and are not modelled.)
\<close>

type_synonym results = "string \<rightharpoonup> json"

definition registerAgent :: "env \<Rightarrow> string \<Rightarrow> string \<Rightarrow> string list \<Rightarrow> world \<Rightarrow> world" where
  "registerAgent e name url caps w =
     (let now = clock e (length (posts w)) in
      w\<lparr>agents := map_set name
            \<lparr>ag_name = name, ag_url = url, ag_capabilities = caps, ag_lastSeen = now\<rparr>
            (agents w),
        sm := registerAgentStatus now name url caps (sm w)\<rparr>)"

definition findAgentsByCapability :: "string \<Rightarrow> registry \<Rightarrow> agent_info list" where
  "findAgentsByCapability capability reg =
     filter (\<lambda>agent. capability \<in> set (ag_capabilities agent)) (map snd reg)"

definition response_ok :: "nat \<Rightarrow> bool" where
  "response_ok code = (200 \<le> code \<and> code \<le> 299)"

definition delegateTask ::
  "config \<Rightarrow> env \<Rightarrow> string \<Rightarrow> subtask \<Rightarrow> (string \<times> json option) list \<Rightarrow> string \<Rightarrow> world
     \<Rightarrow> (error + json) \<times> world" where
  "delegateTask cfg e taskId taskData prev agentUrl w =
     (let rq = \<lparr>rq_url = agentUrl @ ''/task'', rq_taskId = taskId, rq_subtask = taskData,
                rq_previousResults = prev, rq_timeout = taskTimeout cfg\<rparr>
      in ((case fetch e (length (posts w)) rq of
             NetworkFailure m \<Rightarrow> Inl (FetchError m)
           | HttpResponse code b \<Rightarrow>
               if \<not> response_ok code
               then Inl (FetchError (''Agent returned '' @ string_of_nat code))
               else (case b of Malformed m \<Rightarrow> Inl (FetchError m) | Json j \<Rightarrow> Inr j)),
          w\<lparr>posts := posts w @ [rq]\<rparr>))"

text \<open>\<open>subtask.dependsOn.every(dep => results[dep])\<close>, true when there is no list.\<close>

definition dependenciesMet :: "subtask \<Rightarrow> results \<Rightarrow> bool" where
  "dependenciesMet st res =
     (case st_dependsOn st of
        None \<Rightarrow> True
      | Some deps \<Rightarrow>
          list_all (\<lambda>dep. case res dep of None \<Rightarrow> False | Some v \<Rightarrow> truthy v) deps)"

definition previousResults :: "subtask \<Rightarrow> results \<Rightarrow> (string \<times> json option) list" where
  "previousResults st res =
     (case st_dependsOn st of None \<Rightarrow> [] | Some deps \<Rightarrow> map (\<lambda>dep. (dep, res dep)) deps)"

definition no_agent_error :: json where
  "no_agent_error = JObj [(''error'', JStr ''No capable agent available'')]"

definition error_json :: "error \<Rightarrow> json" where
  "error_json err = JObj [(''error'', JStr (message err))]"

text \<open>
  A run of the loop either returns the results object or is left by an exception; in
  both cases the mutations made so far stay.
\<close>

datatype loop_result = Threw error world | Returned results world

text \<open>The \<open>catch\<close> block of the loop body.\<close>

definition catch_failed :: "env \<Rightarrow> string \<Rightarrow> subtask \<Rightarrow> error \<Rightarrow> results \<Rightarrow> world \<Rightarrow> loop_result" where
  "catch_failed e taskId st err res w =
     (case updateSubtask (clock e (length (posts w))) taskId (st_id st) Failed
             (Some (error_json err)) (sm w) of
        Inl err' \<Rightarrow> Threw err' w
      | Inr s' \<Rightarrow> Returned res (w\<lparr>sm := s'\<rparr>))"

text \<open>
  The \<open>try\<close> block.  The subtask object spread into the request is the one that
  \<open>updateSubtask\<close> has just marked in progress.
\<close>

definition try_delegate ::
  "config \<Rightarrow> env \<Rightarrow> string \<Rightarrow> subtask \<Rightarrow> agent_info \<Rightarrow> results \<Rightarrow> world \<Rightarrow> loop_result" where
  "try_delegate cfg e taskId st agent res w =
     (let taskData = st\<lparr>st_status := InProgress,
                        st_updatedAt := Some (clock e (length (posts w)))\<rparr>
      in case delegateTask cfg e taskId taskData (previousResults st res) (ag_url agent) w of
           (Inl err, w1) \<Rightarrow> catch_failed e taskId st err res w1
         | (Inr result, w1) \<Rightarrow>
             (let res' = res(st_type st \<mapsto> result);
                  now = clock e (length (posts w1))
              in case updateSubtask now taskId (st_id st) Completed (Some result) (sm w1) of
                   Inl err \<Rightarrow> catch_failed e taskId st err res' w1
                 | Inr s2 \<Rightarrow>
                     (case storeResult now taskId (ag_name agent) result s2 of
                        Inl err \<Rightarrow> catch_failed e taskId st err res' (w1\<lparr>sm := s2\<rparr>)
                      | Inr s3 \<Rightarrow> Returned res' (w1\<lparr>sm := s3\<rparr>))))"

text \<open>One iteration of \<open>for (const subtask of sortedSubtasks)\<close>.\<close>

definition subtask_step ::
  "config \<Rightarrow> env \<Rightarrow> string \<Rightarrow> subtask \<Rightarrow> results \<Rightarrow> world \<Rightarrow> loop_result" where
  "subtask_step cfg e taskId st res w =
     (if \<not> dependenciesMet st res then Returned res w
      else case findAgentsByCapability (st_capability st) (agents w) of
             [] \<Rightarrow>
               (case updateSubtask (clock e (length (posts w))) taskId (st_id st) Failed
                       (Some no_agent_error) (sm w) of
                  Inl err \<Rightarrow> Threw err w
                | Inr s' \<Rightarrow> Returned res (w\<lparr>sm := s'\<rparr>))
           | agent # _ \<Rightarrow>
               (case updateSubtask (clock e (length (posts w))) taskId (st_id st) InProgress
                       None (sm w) of
                  Inl err \<Rightarrow> Threw err w
                | Inr s' \<Rightarrow> try_delegate cfg e taskId st agent res (w\<lparr>sm := s'\<rparr>)))"

fun subtask_loop ::
  "config \<Rightarrow> env \<Rightarrow> string \<Rightarrow> subtask list \<Rightarrow> results \<Rightarrow> world \<Rightarrow> loop_result" where
  "subtask_loop cfg e taskId [] res w = Returned res w"
| "subtask_loop cfg e taskId (st # rest) res w =
     (case subtask_step cfg e taskId st res w of
        Threw err w' \<Rightarrow> Threw err w'
      | Returned res' w' \<Rightarrow> subtask_loop cfg e taskId rest res' w')"

text \<open>
  \<open>[...subtasks].sort((a, b) => a.priority - b.priority)\<close> is a stable sort by priority,
  as \<open>sort_key\<close> is; the results object starts empty.
\<close>

definition executeSubtasks ::
  "config \<Rightarrow> env \<Rightarrow> string \<Rightarrow> subtask list \<Rightarrow> world \<Rightarrow> loop_result" where
  "executeSubtasks cfg e taskId subtasks w =
     subtask_loop cfg e taskId (sort_key st_priority subtasks) Map.empty w"

section \<open>The POST /research handler (coordinator)\<close>


datatype research_response =
    BadRequest string
  | Success string report
  | ServerError string string

fun research_status :: "research_response \<Rightarrow> nat" where
  "research_status (BadRequest _) = 400"
| "research_status (Success _ _) = 200"
| "research_status (ServerError _ _) = 500"





section \<open>Registration (src/app/api/auth/register/route.ts, src/lib/storage.ts)\<close>

record agent =
  a_id :: string
  a_name :: string
  a_apiKey :: string
  a_createdAt :: string

record app_session =
  ss_id :: string
  ss_agentId :: string
  ss_agentName :: string
  ss_status :: string
  ss_createdAt :: string
  ss_lastActivity :: string

text \<open>The two private \<open>Map\<close>s of \<open>Storage\<close>, in insertion order.\<close>

record storage =
  sg_agents :: "(string \<times> agent) list"
  sg_sessions :: "(string \<times> app_session) list"

definition new_storage :: storage where
  "new_storage = \<lparr>sg_agents = [], sg_sessions = []\<rparr>"

definition addAgent :: "agent \<Rightarrow> storage \<Rightarrow> storage" where
  "addAgent a sg = sg\<lparr>sg_agents := map_set (a_id a) a (sg_agents sg)\<rparr>"

definition findAgentByName :: "string \<Rightarrow> storage \<Rightarrow> agent option" where
  "findAgentByName name sg = find (\<lambda>a. a_name a = name) (map snd (sg_agents sg))"

text \<open>
  White space as \<open>String.prototype.trim\<close> removes it, among the code units a
  character can hold: tab, line feed, vertical tab, form feed, carriage return, space
  and no-break space.
\<close>

definition is_space :: "char \<Rightarrow> bool" where
  "is_space c = (c \<in> set [CHR 0x09, CHR 0x0A, CHR 0x0B, CHR 0x0C, CHR 0x0D, CHR 0x20, CHR 0xA0])"

text \<open>\<open>name.trim().length === 0\<close>.\<close>

definition blank :: "string \<Rightarrow> bool" where
  "blank s = list_all is_space s"

text \<open>\<open>s.replace(/-/g, '')\<close>.\<close>

definition strip_dashes :: "string \<Rightarrow> string" where
  "strip_dashes s = filter (\<lambda>c. c \<noteq> CHR ''-'') s"

text \<open>
  Reading property \<open>name\<close> of the parsed body: the last binding of a repeated key wins,
  anything but an object has no such property.
\<close>

fun get_name :: "json \<Rightarrow> json option" where
  "get_name (JObj kvs) = map_of (rev kvs) ''name''"
| "get_name _ = None"

text \<open>
  A request: the body as \<open>request.json()\<close> parses it (\<open>None\<close> when parsing throws), and
  what the handler draws from outside, the two \<open>uuidv4()\<close> results and the ISO time
  stamp.
\<close>

record register_request =
  rg_body :: "json option"
  rg_uuid1 :: string
  rg_uuid2 :: string
  rg_time :: string

datatype register_response =
    RegError nat string
  | Registered string string string

fun register_status :: "register_response \<Rightarrow> nat" where
  "register_status (RegError code _) = code"
| "register_status (Registered _ _ _) = 201"

definition register_POST :: "register_request \<Rightarrow> storage \<Rightarrow> register_response \<times> storage" where
  "register_POST rq sg =
     (case rg_body rq of
        None \<Rightarrow> (RegError 400 ''Invalid JSON'', sg)
      | Some JNull \<Rightarrow> (RegError 400 ''Invalid JSON'', sg)
      | Some b \<Rightarrow>
          (case get_name b of
             Some (JStr name) \<Rightarrow>
               if name = [] \<or> blank name
               then (RegError 400 ''Name is required and must be a non-empty string'', sg)
               else if length name > 50
               then (RegError 400 ''Name must be 50 characters or less'', sg)
               else
                 (case findAgentByName name sg of
                    Some existingAgent \<Rightarrow> (RegError 409 ''Name already taken'', sg)
                  | None \<Rightarrow>
                      (let agentId = ''agent_'' @ rg_uuid1 rq;
                           apiKey = ''sk_test_'' @ strip_dashes (rg_uuid2 rq);
                           a = \<lparr>a_id = agentId, a_name = name, a_apiKey = apiKey,
                                a_createdAt = rg_time rq\<rparr>
                       in (Registered agentId apiKey
                             (''Welcome '' @ name @ ''! Use this API key for all requests.''),
                           addAgent a sg)))
           | _ \<Rightarrow> (RegError 400 ''Name is required and must be a non-empty string'', sg)))"

text \<open>The storage after a sequence of registration requests.\<close>

fun register_all :: "register_request list \<Rightarrow> storage \<Rightarrow> storage" where
  "register_all [] sg = sg"
| "register_all (rq # rqs) sg = register_all rqs (snd (register_POST rq sg))"

section \<open>Observations used in the statements\<close>

text \<open>
  The subtask of a task that \<open>find\<close> returns for an id, the ids of a task's subtasks (none
  for a task that does not exist), and the status of a task.
\<close>

definition subtask_of :: "string \<Rightarrow> string \<Rightarrow> state_manager \<Rightarrow> subtask option" where
  "subtask_of taskId subtaskId s =
     (case tasks s taskId of
        None \<Rightarrow> None
      | Some task \<Rightarrow> find (\<lambda>x. st_id x = subtaskId) (t_subtasks task))"

definition subtask_ids :: "string \<Rightarrow> state_manager \<Rightarrow> string list" where
  "subtask_ids taskId s =
     (case tasks s taskId of None \<Rightarrow> [] | Some task \<Rightarrow> map st_id (t_subtasks task))"

definition task_status :: "string \<Rightarrow> state_manager \<Rightarrow> status option" where
  "task_status taskId s = map_option t_status (tasks s taskId)"

text \<open>The state in which a run of the loop ends, returned or thrown.\<close>

fun world_of :: "loop_result \<Rightarrow> world" where
  "world_of (Threw _ w) = w"
| "world_of (Returned _ w) = w"

text \<open>
  The request one iteration sends and how \<open>delegateTask\<close> reads the answer; lemma
  \<open>delegateTask_eq\<close> relates both to \<open>delegateTask\<close>.
\<close>

definition request_for ::
  "config \<Rightarrow> string \<Rightarrow> subtask \<Rightarrow> results \<Rightarrow> agent_info \<Rightarrow> int \<Rightarrow> http_request" where
  "request_for cfg taskId st res agent now =
     \<lparr>rq_url = ag_url agent @ ''/task'', rq_taskId = taskId,
      rq_subtask = st\<lparr>st_status := InProgress, st_updatedAt := Some now\<rparr>,
      rq_previousResults = previousResults st res, rq_timeout = taskTimeout cfg\<rparr>"

definition response_result :: "fetch_outcome \<Rightarrow> error + json" where
  "response_result out =
     (case out of
        NetworkFailure m \<Rightarrow> Inl (FetchError m)
      | HttpResponse code b \<Rightarrow>
          if \<not> response_ok code
          then Inl (FetchError (''Agent returned '' @ string_of_nat code))
          else (case b of Malformed m \<Rightarrow> Inl (FetchError m) | Json j \<Rightarrow> Inr j))"

text \<open>Every stored name has passed the checks of the registration handler.\<close>

definition names_checked :: "storage \<Rightarrow> bool" where
  "names_checked sg =
     list_all (\<lambda>a. a_name a \<noteq> [] \<and> \<not> blank (a_name a) \<and> length (a_name a) \<le> 50)
       (map snd (sg_agents sg))"

section \<open>What the handler has built when it calls \<open>executeSubtasks\<close>\<close>


definition research_subtask :: "int \<Rightarrow> string \<Rightarrow> string \<Rightarrow> subtask" where
  "research_subtask now taskId query =
     \<lparr>st_id = taskId @ ''-0'', st_status = Pending, st_createdAt = now, st_updatedAt = None,
      st_type = ''research'', st_description = ''Gather information about: '' @ query,
      st_capability = ''search'', st_priority = 1, st_dependsOn = None, st_result = None\<rparr>"

definition summarize_subtask :: "int \<Rightarrow> string \<Rightarrow> subtask" where
  "summarize_subtask now taskId =
     \<lparr>st_id = taskId @ ''-1'', st_status = Pending, st_createdAt = now, st_updatedAt = None,
      st_type = ''summarize'', st_description = ''Summarize research findings'',
      st_capability = ''summarize'', st_priority = 2, st_dependsOn = Some [''research''],
      st_result = None\<rparr>"

definition research_subtasks :: "int \<Rightarrow> string \<Rightarrow> string \<Rightarrow> string \<Rightarrow> subtask list" where
  "research_subtasks now taskId query depth =
     research_subtask now taskId query #
     (if depth = ''comprehensive'' \<or> depth = ''detailed'' then [summarize_subtask now taskId] else [])"

definition research_task :: "int \<Rightarrow> string \<Rightarrow> string \<Rightarrow> string \<Rightarrow> task" where
  "research_task now taskId query depth =
     \<lparr>t_id = taskId, t_status = InProgress, t_createdAt = now, t_updatedAt = now,
      t_query = query, t_depth = depth, t_type = ''research'',
      t_subtasks = research_subtasks now taskId query depth,
      t_results = Map.empty, t_report = None\<rparr>"

definition prepared_world :: "env \<Rightarrow> string \<Rightarrow> string \<Rightarrow> string \<Rightarrow> world \<Rightarrow> world" where
  "prepared_world e taskId query depth w =
     w\<lparr>sm := (sm w)\<lparr>tasks := (tasks (sm w))(taskId \<mapsto>
          research_task (clock e (length (posts w))) taskId query depth)\<rparr>\<rparr>"


section \<open>Example states\<close>

text \<open>A state manager with three tasks and one agent, all last touched at time 0.\<close>

definition example_subtask :: "string \<Rightarrow> status \<Rightarrow> subtask" where
  "example_subtask i st =
     \<lparr>st_id = i, st_status = st, st_createdAt = 0, st_updatedAt = None,
      st_type = ''research'', st_description = ''Gather information about: x'',
      st_capability = ''search'', st_priority = 1, st_dependsOn = None, st_result = None\<rparr>"

definition example_task :: "string \<Rightarrow> status \<Rightarrow> subtask list \<Rightarrow> task" where
  "example_task i st sts =
     \<lparr>t_id = i, t_status = st, t_createdAt = 0, t_updatedAt = 0,
      t_query = ''x'', t_depth = ''basic'', t_type = ''research'',
      t_subtasks = sts, t_results = Map.empty, t_report = None\<rparr>"

definition example_state :: state_manager where
  "example_state =
     \<lparr>tasks = [''t1'' \<mapsto> example_task ''t1'' InProgress
                    [example_subtask ''t1-0'' Completed, example_subtask ''t1-1'' Failed],
               ''t2'' \<mapsto> example_task ''t2'' Completed [],
               ''t3'' \<mapsto> example_task ''t3'' InProgress
                    [example_subtask ''t3-0'' Completed, example_subtask ''t3-1'' Pending]],
      sessions = Map.empty,
      agentStatus = [''Researcher'' \<mapsto>
         \<lparr>as_name = ''Researcher'', as_status = Online, as_lastSeen = 0,
          as_url = ''http://localhost:4001'', as_capabilities = [''search'']\<rparr>]\<rparr>"

text \<open>The default configuration and the two workers of the example system.\<close>

definition example_config :: config where
  "example_config =
     \<lparr>port = 4000, serverUrl = ''http://localhost:3000'', maxConcurrentTasks = 5,
      taskTimeout = 30000, retryAttempts = 3, retryDelay = 1000\<rparr>"

definition researcher :: agent_info where
  "researcher =
     \<lparr>ag_name = ''ResearcherAgent'', ag_url = ''http://localhost:4001'',
      ag_capabilities = [''search'', ''validate'', ''extract''], ag_lastSeen = 0\<rparr>"

definition summarizer :: agent_info where
  "summarizer =
     \<lparr>ag_name = ''SummarizerAgent'', ag_url = ''http://localhost:4002'',
      ag_capabilities = [''summarize''], ag_lastSeen = 0\<rparr>"

text \<open>A coordinator with the given agents registered and no task yet.\<close>

definition fresh_world :: "agent_info list \<Rightarrow> world" where
  "fresh_world ags =
     \<lparr>agents = map (\<lambda>a. (ag_name a, a)) ags, sm = new_state_manager, posts = []\<rparr>"

text \<open>The same coordinator holding task \<open>t\<close> as the handler has prepared it.\<close>

definition started_world :: "agent_info list \<Rightarrow> string \<Rightarrow> world" where
  "started_world ags depth =
     \<lparr>agents = map (\<lambda>a. (ag_name a, a)) ags,
      sm = new_state_manager\<lparr>tasks := [''t'' \<mapsto> research_task 0 ''t'' ''rust'' depth]\<rparr>,
      posts = []\<rparr>"

text \<open>Workers that cannot be reached, that answer 500, and that answer 200 with a body.\<close>

definition env_down :: env where
  "env_down = \<lparr>fetch = (\<lambda>n rq. NetworkFailure ''fetch failed''), clock = (\<lambda>n. int n)\<rparr>"

definition env_500 :: env where
  "env_500 = \<lparr>fetch = (\<lambda>n rq. HttpResponse 500 (Malformed ''Unexpected token'')),
               clock = (\<lambda>n. int n)\<rparr>"

definition env_up :: env where
  "env_up = \<lparr>fetch = (\<lambda>n rq. HttpResponse 200 (Json (JObj [(''success'', JBool True)]))),
              clock = (\<lambda>n. int n)\<rparr>"

text \<open>A registration request for a name, with the two identifiers drawn for it.\<close>

definition example_register :: "string \<Rightarrow> string \<Rightarrow> string \<Rightarrow> register_request" where
  "example_register name u1 u2 =
     \<lparr>rg_body = Some (JObj [(''name'', JStr name)]), rg_uuid1 = u1, rg_uuid2 = u2,
      rg_time = ''2026-01-01T00:00:00.000Z''\<rparr>"

section \<open>The state manager's updates\<close>

lemma st_id_mark [simp]: "st_id (mark st now res x) = st_id x"
  by (simp add: mark_def set_result_def split: option.splits)

lemma update_first_Some:
  "\<exists>x\<in>set xs. P x \<Longrightarrow> \<exists>ys. update_first P f xs = Some ys"
  by (induction xs) auto

lemma update_first_None: "(update_first P f xs = None) = (\<forall>x\<in>set xs. \<not> P x)"
  by (induction xs) auto

lemma update_first_map:
  "update_first P f xs = Some ys \<Longrightarrow> (\<And>x. g (f x) = g x) \<Longrightarrow> map g ys = map g xs"
  by (induction xs arbitrary: ys) (auto split: if_splits)

lemma update_first_find_same:
  "update_first (\<lambda>x. st_id x = i) f xs = Some ys \<Longrightarrow> (\<And>x. st_id (f x) = st_id x) \<Longrightarrow>
   find (\<lambda>x. st_id x = i) ys = map_option f (find (\<lambda>x. st_id x = i) xs)"
  by (induction xs arbitrary: ys) (auto split: if_splits)

lemma update_first_find_other:
  "update_first (\<lambda>x. st_id x = i) f xs = Some ys \<Longrightarrow> (\<And>x. st_id (f x) = st_id x) \<Longrightarrow> j \<noteq> i \<Longrightarrow>
   find (\<lambda>x. st_id x = j) ys = find (\<lambda>x. st_id x = j) xs"
  by (induction xs arbitrary: ys) (auto split: if_splits)

lemma updateSubtask_Inr:
  "(updateSubtask now taskId subtaskId st res s = Inr s') =
   (\<exists>task ys. tasks s taskId = Some task \<and>
      update_first (\<lambda>x. st_id x = subtaskId) (mark st now res) (t_subtasks task) = Some ys \<and>
      s' = s\<lparr>tasks := (tasks s)(taskId \<mapsto> task\<lparr>t_subtasks := ys, t_updatedAt := now\<rparr>)\<rparr>)"
proof (cases "tasks s taskId")
  case None
  then show ?thesis by (simp add: updateSubtask_def)
next
  case (Some task)
  show ?thesis
  proof (cases "update_first (\<lambda>x. st_id x = subtaskId) (mark st now res) (t_subtasks task)")
    case None
    with Some show ?thesis by (simp add: updateSubtask_def)
  next
    case (Some ys)
    with \<open>tasks s taskId = Some task\<close> show ?thesis
      by (simp add: updateSubtask_def eq_commute [of s'])
  qed
qed

lemma update_first_id_Some:
  "i \<in> set (map st_id xs) \<Longrightarrow> \<exists>ys. update_first (\<lambda>x. st_id x = i) f xs = Some ys"
  by (induction xs) auto

lemma updateSubtask_ok:
  assumes a: "subtaskId \<in> set (subtask_ids taskId s)"
  shows "\<exists>s'. updateSubtask now taskId subtaskId st res s = Inr s'"
proof (cases "tasks s taskId")
  case None
  with a show ?thesis by (simp add: subtask_ids_def)
next
  case (Some task)
  with a have "subtaskId \<in> set (map st_id (t_subtasks task))"
    by (simp add: subtask_ids_def)
  from update_first_id_Some [OF this] obtain ys where
    "update_first (\<lambda>x. st_id x = subtaskId) (mark st now res) (t_subtasks task) = Some ys"
    by blast
  with Some show ?thesis by (simp add: updateSubtask_def)
qed

lemma updateSubtask_effect:
  assumes "updateSubtask now taskId subtaskId st res s = Inr s'"
  shows "subtask_ids taskId s' = subtask_ids taskId s"
    and "subtask_of taskId subtaskId s' = map_option (mark st now res) (subtask_of taskId subtaskId s)"
    and "j \<noteq> subtaskId \<Longrightarrow> subtask_of taskId j s' = subtask_of taskId j s"
    and "task_status taskId s' = task_status taskId s"
    and "subtaskId \<in> set (subtask_ids taskId s)"
proof -
  from assms obtain task ys where t: "tasks s taskId = Some task"
    and u: "update_first (\<lambda>x. st_id x = subtaskId) (mark st now res) (t_subtasks task) = Some ys"
    and s': "s' = s\<lparr>tasks := (tasks s)(taskId \<mapsto> task\<lparr>t_subtasks := ys, t_updatedAt := now\<rparr>)\<rparr>"
    unfolding updateSubtask_Inr by (elim exE conjE)
  have ids: "map st_id ys = map st_id (t_subtasks task)"
    by (rule update_first_map [OF u]) simp
  show "subtask_ids taskId s' = subtask_ids taskId s"
    unfolding s' using t ids by (simp add: subtask_ids_def)
  have same: "find (\<lambda>x. st_id x = subtaskId) ys =
      map_option (mark st now res) (find (\<lambda>x. st_id x = subtaskId) (t_subtasks task))"
    by (rule update_first_find_same [OF u]) simp
  show "subtask_of taskId subtaskId s' = map_option (mark st now res) (subtask_of taskId subtaskId s)"
    unfolding s' using t same by (simp add: subtask_of_def)
  show "subtask_of taskId j s' = subtask_of taskId j s" if "j \<noteq> subtaskId"
  proof -
    have "find (\<lambda>x. st_id x = j) ys = find (\<lambda>x. st_id x = j) (t_subtasks task)"
      by (rule update_first_find_other [OF u _ that]) simp
    then show ?thesis unfolding s' using t by (simp add: subtask_of_def)
  qed
  show "task_status taskId s' = task_status taskId s"
    unfolding s' using t by (simp add: task_status_def)
  have "\<not> (\<forall>x\<in>set (t_subtasks task). \<not> st_id x = subtaskId)"
    using u update_first_None [of "\<lambda>x. st_id x = subtaskId" "mark st now res" "t_subtasks task"]
    by simp
  then have "subtaskId \<in> set (map st_id (t_subtasks task))"
    by (simp add: image_iff) blast
  then show "subtaskId \<in> set (subtask_ids taskId s)"
    using t by (simp add: subtask_ids_def)
qed

lemma storeResult_ok:
  "subtask_ids taskId s \<noteq> [] \<Longrightarrow> \<exists>s'. storeResult now taskId name r s = Inr s'"
  by (cases "tasks s taskId") (simp_all add: subtask_ids_def storeResult_def)

lemma storeResult_effect:
  assumes "storeResult now taskId name r s = Inr s'"
  shows "subtask_ids taskId s' = subtask_ids taskId s"
    and "subtask_of taskId j s' = subtask_of taskId j s"
    and "task_status taskId s' = task_status taskId s"
proof -
  from assms obtain task where t: "tasks s taskId = Some task"
    and s': "s' = s\<lparr>tasks := (tasks s)(taskId \<mapsto>
                 task\<lparr>t_results := (t_results task)(name \<mapsto>
                         \<lparr>sr_data = r, sr_timestamp = now\<rparr>),
                      t_updatedAt := now\<rparr>)\<rparr>"
    by (cases "tasks s taskId") (simp_all add: storeResult_def eq_commute [of _ s'])
  show "subtask_ids taskId s' = subtask_ids taskId s"
    unfolding s' using t by (simp add: subtask_ids_def)
  show "subtask_of taskId j s' = subtask_of taskId j s"
    unfolding s' using t by (simp add: subtask_of_def)
  show "task_status taskId s' = task_status taskId s"
    unfolding s' using t by (simp add: task_status_def)
qed

section \<open>One iteration of the loop\<close>

lemma delegateTask_eq:
  "delegateTask cfg e taskId
      (st\<lparr>st_status := InProgress, st_updatedAt := Some (clock e (length (posts w)))\<rparr>)
      (previousResults st res) (ag_url agent) w =
   (response_result (fetch e (length (posts w)) (request_for cfg taskId st res agent (clock e (length (posts w))))),
    w\<lparr>posts := posts w @ [request_for cfg taskId st res agent (clock e (length (posts w)))]\<rparr>)"
  by (simp add: delegateTask_def request_for_def response_result_def Let_def)

lemma catch_failed_world:
  "posts (world_of (catch_failed e taskId st err res w)) = posts w"
  "agents (world_of (catch_failed e taskId st err res w)) = agents w"
  by (simp_all add: catch_failed_def split: sum.split)

lemma try_delegate_world:
  "posts (world_of (try_delegate cfg e taskId st agent res w)) =
     posts w @ [request_for cfg taskId st res agent (clock e (length (posts w)))]"
  "agents (world_of (try_delegate cfg e taskId st agent res w)) = agents w"
  by (simp_all add: try_delegate_def delegateTask_eq Let_def catch_failed_world
        split: sum.split)

lemma step_agents:
  "agents (world_of (subtask_step cfg e taskId st res w)) = agents w"
  by (simp add: subtask_step_def try_delegate_world split: list.split sum.split)

lemma step_posts:
  "posts (world_of (subtask_step cfg e taskId st res w)) = posts w \<or>
   (dependenciesMet st res \<and>
    (\<exists>agent rest. findAgentsByCapability (st_capability st) (agents w) = agent # rest \<and>
       posts (world_of (subtask_step cfg e taskId st res w)) =
         posts w @ [request_for cfg taskId st res agent (clock e (length (posts w)))]))"
  by (simp add: subtask_step_def try_delegate_world split: list.split sum.split)

lemma catch_failed_ok:
  assumes "st_id st \<in> set (subtask_ids taskId (sm w))"
  shows "\<exists>s'. updateSubtask (clock e (length (posts w))) taskId (st_id st) Failed
                 (Some (error_json err)) (sm w) = Inr s' \<and>
              catch_failed e taskId st err res w = Returned res (w\<lparr>sm := s'\<rparr>)"
proof -
  from updateSubtask_ok [OF assms] obtain s' where
    "updateSubtask (clock e (length (posts w))) taskId (st_id st) Failed
       (Some (error_json err)) (sm w) = Inr s'" by blast
  then show ?thesis by (simp add: catch_failed_def)
qed

lemma step_skipped:
  "\<not> dependenciesMet st res \<Longrightarrow> subtask_step cfg e taskId st res w = Returned res w"
  by (simp add: subtask_step_def)

lemma step_no_agent:
  assumes "st_id st \<in> set (subtask_ids taskId (sm w))"
    and "dependenciesMet st res"
    and "findAgentsByCapability (st_capability st) (agents w) = []"
  shows "\<exists>s'. updateSubtask (clock e (length (posts w))) taskId (st_id st) Failed
                 (Some no_agent_error) (sm w) = Inr s' \<and>
              subtask_step cfg e taskId st res w = Returned res (w\<lparr>sm := s'\<rparr>)"
proof -
  from updateSubtask_ok [OF assms(1)] obtain s' where
    "updateSubtask (clock e (length (posts w))) taskId (st_id st) Failed
       (Some no_agent_error) (sm w) = Inr s'" by blast
  with assms(2,3) show ?thesis by (simp add: subtask_step_def)
qed

lemma step_delegate_failed:
  assumes present: "st_id st \<in> set (subtask_ids taskId (sm w))"
    and met: "dependenciesMet st res"
    and found: "findAgentsByCapability (st_capability st) (agents w) = agent # rest"
    and out: "response_result (fetch e (length (posts w))
                (request_for cfg taskId st res agent (clock e (length (posts w))))) = Inl err"
  shows "\<exists>s1 s2.
           updateSubtask (clock e (length (posts w))) taskId (st_id st) InProgress None (sm w) = Inr s1 \<and>
           updateSubtask (clock e (Suc (length (posts w)))) taskId (st_id st) Failed
             (Some (error_json err)) s1 = Inr s2 \<and>
           subtask_step cfg e taskId st res w =
             Returned res (w\<lparr>sm := s2,
               posts := posts w @ [request_for cfg taskId st res agent (clock e (length (posts w)))]\<rparr>)"
proof -
  from updateSubtask_ok [OF present] obtain s1 where
    u1: "updateSubtask (clock e (length (posts w))) taskId (st_id st) InProgress None (sm w) = Inr s1"
    by blast
  have "st_id st \<in> set (subtask_ids taskId s1)"
    using present updateSubtask_effect(1) [OF u1] by simp
  from updateSubtask_ok [OF this] obtain s2 where
    u2: "updateSubtask (clock e (Suc (length (posts w)))) taskId (st_id st) Failed
           (Some (error_json err)) s1 = Inr s2"
    by blast
  have "try_delegate cfg e taskId st agent res (w\<lparr>sm := s1\<rparr>) =
        Returned res (w\<lparr>sm := s2,
          posts := posts w @ [request_for cfg taskId st res agent (clock e (length (posts w)))]\<rparr>)"
    using out u2
    by (simp add: try_delegate_def delegateTask_eq [where w = "w\<lparr>sm := s1\<rparr>", simplified]
          catch_failed_def)
  with met found u1 u2 show ?thesis by (simp add: subtask_step_def)
qed

lemma step_delegate_completed:
  assumes present: "st_id st \<in> set (subtask_ids taskId (sm w))"
    and met: "dependenciesMet st res"
    and found: "findAgentsByCapability (st_capability st) (agents w) = agent # rest"
    and out: "response_result (fetch e (length (posts w))
                (request_for cfg taskId st res agent (clock e (length (posts w))))) = Inr j"
  shows "\<exists>s1 s2 s3.
           updateSubtask (clock e (length (posts w))) taskId (st_id st) InProgress None (sm w) = Inr s1 \<and>
           updateSubtask (clock e (Suc (length (posts w)))) taskId (st_id st) Completed
             (Some j) s1 = Inr s2 \<and>
           storeResult (clock e (Suc (length (posts w)))) taskId (ag_name agent) j s2 = Inr s3 \<and>
           subtask_step cfg e taskId st res w =
             Returned (res(st_type st \<mapsto> j)) (w\<lparr>sm := s3,
               posts := posts w @ [request_for cfg taskId st res agent (clock e (length (posts w)))]\<rparr>)"
proof -
  from updateSubtask_ok [OF present] obtain s1 where
    u1: "updateSubtask (clock e (length (posts w))) taskId (st_id st) InProgress None (sm w) = Inr s1"
    by blast
  have p1: "st_id st \<in> set (subtask_ids taskId s1)"
    using present updateSubtask_effect(1) [OF u1] by simp
  from updateSubtask_ok [OF p1] obtain s2 where
    u2: "updateSubtask (clock e (Suc (length (posts w)))) taskId (st_id st) Completed
           (Some j) s1 = Inr s2"
    by blast
  have "subtask_ids taskId s2 \<noteq> []"
    using p1 updateSubtask_effect(1) [OF u2] by auto
  from storeResult_ok [OF this] obtain s3 where
    u3: "storeResult (clock e (Suc (length (posts w)))) taskId (ag_name agent) j s2 = Inr s3"
    by blast
  have "try_delegate cfg e taskId st agent res (w\<lparr>sm := s1\<rparr>) =
        Returned (res(st_type st \<mapsto> j)) (w\<lparr>sm := s3,
          posts := posts w @ [request_for cfg taskId st res agent (clock e (length (posts w)))]\<rparr>)"
    using out u2 u3
    by (simp add: try_delegate_def delegateTask_eq [where w = "w\<lparr>sm := s1\<rparr>", simplified])
  with met found u1 u2 u3 show ?thesis by (simp add: subtask_step_def)
qed

lemma step_ok:
  assumes present: "st_id st \<in> set (subtask_ids taskId (sm w))"
  shows "\<exists>res' w'. subtask_step cfg e taskId st res w = Returned res' w' \<and>
           subtask_ids taskId (sm w') = subtask_ids taskId (sm w) \<and>
           task_status taskId (sm w') = task_status taskId (sm w) \<and>
           (\<forall>j. j \<noteq> st_id st \<longrightarrow> subtask_of taskId j (sm w') = subtask_of taskId j (sm w))"
proof (cases "dependenciesMet st res")
  case False
  then show ?thesis by (simp add: step_skipped)
next
  case met: True
  show ?thesis
  proof (cases "findAgentsByCapability (st_capability st) (agents w)")
    case Nil
    from step_no_agent [OF present met Nil, where cfg = cfg and e = e] obtain s' where
      u: "updateSubtask (clock e (length (posts w))) taskId (st_id st) Failed
            (Some no_agent_error) (sm w) = Inr s'"
      and r: "subtask_step cfg e taskId st res w = Returned res (w\<lparr>sm := s'\<rparr>)"
      by blast
    show ?thesis
      using r updateSubtask_effect(1,3,4) [OF u] by simp
  next
    case (Cons agent rest)
    let ?rq = "request_for cfg taskId st res agent (clock e (length (posts w)))"
    show ?thesis
    proof (cases "response_result (fetch e (length (posts w)) ?rq)")
      case (Inl err)
      from step_delegate_failed [OF present met Cons Inl] obtain s1 s2 where
        u1: "updateSubtask (clock e (length (posts w))) taskId (st_id st) InProgress None (sm w) = Inr s1"
        and u2: "updateSubtask (clock e (Suc (length (posts w)))) taskId (st_id st) Failed
                   (Some (error_json err)) s1 = Inr s2"
        and r: "subtask_step cfg e taskId st res w =
                  Returned res (w\<lparr>sm := s2, posts := posts w @ [?rq]\<rparr>)"
        by blast
      show ?thesis
        using r updateSubtask_effect(1,3,4) [OF u1] updateSubtask_effect(1,3,4) [OF u2] by simp
    next
      case (Inr j)
      from step_delegate_completed [OF present met Cons Inr] obtain s1 s2 s3 where
        u1: "updateSubtask (clock e (length (posts w))) taskId (st_id st) InProgress None (sm w) = Inr s1"
        and u2: "updateSubtask (clock e (Suc (length (posts w)))) taskId (st_id st) Completed
                   (Some j) s1 = Inr s2"
        and u3: "storeResult (clock e (Suc (length (posts w)))) taskId (ag_name agent) j s2 = Inr s3"
        and r: "subtask_step cfg e taskId st res w =
                  Returned (res(st_type st \<mapsto> j)) (w\<lparr>sm := s3, posts := posts w @ [?rq]\<rparr>)"
        by blast
      show ?thesis
        using r updateSubtask_effect(1,3,4) [OF u1] updateSubtask_effect(1,3,4) [OF u2]
          storeResult_effect [OF u3] by simp
    qed
  qed
qed

section \<open>The whole loop\<close>

lemma loop_append:
  "subtask_loop cfg e taskId (xs @ ys) res w =
     (case subtask_loop cfg e taskId xs res w of
        Threw err w' \<Rightarrow> Threw err w'
      | Returned res' w' \<Rightarrow> subtask_loop cfg e taskId ys res' w')"
  by (induction xs arbitrary: res w) (simp_all split: loop_result.split)

lemma loop_ok:
  assumes "set (map st_id xs) \<subseteq> set (subtask_ids taskId (sm w))"
  shows "\<exists>res' w'. subtask_loop cfg e taskId xs res w = Returned res' w' \<and>
           subtask_ids taskId (sm w') = subtask_ids taskId (sm w) \<and>
           task_status taskId (sm w') = task_status taskId (sm w) \<and>
           (\<forall>j. j \<notin> set (map st_id xs) \<longrightarrow>
                subtask_of taskId j (sm w') = subtask_of taskId j (sm w))"
  using assms
proof (induction xs arbitrary: res w)
  case Nil
  show ?case by simp
next
  case (Cons st rest)
  from Cons.prems have present: "st_id st \<in> set (subtask_ids taskId (sm w))" by simp
  from step_ok [OF present, where cfg = cfg and e = e and res = res] obtain res1 w1 where
    r1: "subtask_step cfg e taskId st res w = Returned res1 w1"
    and i1: "subtask_ids taskId (sm w1) = subtask_ids taskId (sm w)"
    and t1: "task_status taskId (sm w1) = task_status taskId (sm w)"
    and o1: "\<forall>j. j \<noteq> st_id st \<longrightarrow> subtask_of taskId j (sm w1) = subtask_of taskId j (sm w)"
    by blast
  from Cons.prems i1 have "set (map st_id rest) \<subseteq> set (subtask_ids taskId (sm w1))" by simp
  from Cons.IH [OF this, where res = res1] obtain res2 w2 where
    r2: "subtask_loop cfg e taskId rest res1 w1 = Returned res2 w2"
    and i2: "subtask_ids taskId (sm w2) = subtask_ids taskId (sm w1)"
    and t2: "task_status taskId (sm w2) = task_status taskId (sm w1)"
    and o2: "\<forall>j. j \<notin> set (map st_id rest) \<longrightarrow>
               subtask_of taskId j (sm w2) = subtask_of taskId j (sm w1)"
    by blast
  have "subtask_loop cfg e taskId (st # rest) res w = Returned res2 w2"
    using r1 r2 by simp
  moreover have "\<forall>j. j \<notin> set (map st_id (st # rest)) \<longrightarrow>
      subtask_of taskId j (sm w2) = subtask_of taskId j (sm w)"
    using o1 o2 by simp
  ultimately show ?case using i1 i2 t1 t2 by simp
qed

lemma loop_posts:
  assumes f: "\<And>x t. f (x\<lparr>st_status := InProgress, st_updatedAt := t\<rparr>) = f x"
  shows "\<exists>new. posts (world_of (subtask_loop cfg e taskId xs res w)) = posts w @ new \<and>
           subseq (map (\<lambda>rq. f (rq_subtask rq)) new) (map f xs)"
proof (induction xs arbitrary: res w)
  case Nil
  show ?case by simp
next
  case (Cons st rest)
  let ?r = "subtask_step cfg e taskId st res w"
  have hd: "\<exists>one. posts (world_of ?r) = posts w @ one \<and>
              subseq (map (\<lambda>rq. f (rq_subtask rq)) one) [f st]"
  proof -
    from step_posts [of cfg e taskId st res w]
    consider "posts (world_of ?r) = posts w"
      | agent where "posts (world_of ?r) =
           posts w @ [request_for cfg taskId st res agent (clock e (length (posts w)))]"
      by blast
    then show ?thesis
    proof cases
      case 1
      then have "posts (world_of ?r) = posts w @ [] \<and>
          subseq (map (\<lambda>rq. f (rq_subtask rq)) []) [f st]" by simp
      then show ?thesis by blast
    next
      case 2
      have "subseq (map (\<lambda>rq. f (rq_subtask rq))
          [request_for cfg taskId st res agent (clock e (length (posts w)))]) [f st]"
        by (simp add: request_for_def f)
      with 2 show ?thesis by blast
    qed
  qed
  then obtain one where one: "posts (world_of ?r) = posts w @ one"
    and sub1: "subseq (map (\<lambda>rq. f (rq_subtask rq)) one) [f st]" by blast
  show ?case
  proof (cases ?r)
    case (Threw err w')
    from sub1 have "subseq (map (\<lambda>rq. f (rq_subtask rq)) one) (map f (st # rest))"
      using list_emb_append_mono [OF sub1, of "[]" "map f rest"] by simp
    with Threw one show ?thesis by simp
  next
    case (Returned res' w')
    from Cons.IH [of res' w'] obtain new where
      n: "posts (world_of (subtask_loop cfg e taskId rest res' w')) = posts w' @ new"
      and sub2: "subseq (map (\<lambda>rq. f (rq_subtask rq)) new) (map f rest)" by blast
    have "subseq (map (\<lambda>rq. f (rq_subtask rq)) (one @ new)) (map f (st # rest))"
      using list_emb_append_mono [OF sub1 sub2] by simp
    moreover have "posts (world_of (subtask_loop cfg e taskId (st # rest) res w)) =
        posts w @ (one @ new)"
      using Returned one n by simp
    ultimately show ?thesis by blast
  qed
qed

section \<open>The handler's preparation\<close>

lemma string_of_nat_0 [simp]: "string_of_nat 0 = ''0''"
  by (simp add: string_of_nat.simps [of 0] digit_char_def)





section \<open>Splitting a run at a subtask\<close>

lemma loop_agents:
  "agents (world_of (subtask_loop cfg e taskId xs res w)) = agents w"
proof (induction xs arbitrary: res w)
  case Nil
  show ?case by simp
next
  case (Cons st rest)
  show ?case
  proof (cases "subtask_step cfg e taskId st res w")
    case (Threw err w')
    with step_agents [of cfg e taskId st res w] show ?thesis by simp
  next
    case (Returned res' w')
    with step_agents [of cfg e taskId st res w] Cons.IH [of res' w'] show ?thesis by simp
  qed
qed

lemma loop_posts_ids:
  "\<exists>new. posts (world_of (subtask_loop cfg e taskId xs res w)) = posts w @ new \<and>
         (\<forall>rq\<in>set new. st_id (rq_subtask rq) \<in> set (map st_id xs))"
proof -
  from loop_posts [of st_id cfg e taskId xs res w] obtain new where
    p: "posts (world_of (subtask_loop cfg e taskId xs res w)) = posts w @ new"
    and s: "subseq (map (\<lambda>rq. st_id (rq_subtask rq)) new) (map st_id xs)"
    by auto
  have "\<forall>rq\<in>set new. st_id (rq_subtask rq) \<in> set (map st_id xs)"
  proof
    fix rq assume "rq \<in> set new"
    then have "st_id (rq_subtask rq) \<in> set (map (\<lambda>rq. st_id (rq_subtask rq)) new)" by simp
    from list_emb_set [OF s this] obtain y where
      "y \<in> set (map st_id xs)" "st_id (rq_subtask rq) = y" by metis
    then show "st_id (rq_subtask rq) \<in> set (map st_id xs)" by simp
  qed
  with p show ?thesis by blast
qed

lemma sorted_ids:
  assumes "sort_key st_priority sts = pre @ st # post"
  shows "set (map st_id (pre @ st # post)) = set (map st_id sts)"
    and "distinct (map st_id sts) \<Longrightarrow> distinct (map st_id (pre @ st # post))"
proof -
  have m: "mset (map st_id (sort_key st_priority sts)) = mset (map st_id sts)"
    by simp
  show "set (map st_id (pre @ st # post)) = set (map st_id sts)"
    using assms set_sort [of st_priority sts] by (metis set_map)
  show "distinct (map st_id (pre @ st # post))" if "distinct (map st_id sts)"
    using mset_eq_imp_distinct_iff [OF m] that assms by simp
qed

lemma run_split:
  assumes split: "sort_key st_priority sts = pre @ st # post"
    and ids: "set (map st_id sts) \<subseteq> set (subtask_ids taskId (sm w))"
    and dist: "distinct (map st_id sts)"
  shows "\<exists>res1 w1 res2 w2 res' w' n1 n3.
           subtask_loop cfg e taskId pre Map.empty w = Returned res1 w1 \<and>
           subtask_step cfg e taskId st res1 w1 = Returned res2 w2 \<and>
           subtask_loop cfg e taskId post res2 w2 = Returned res' w' \<and>
           executeSubtasks cfg e taskId sts w = Returned res' w' \<and>
           st_id st \<in> set (subtask_ids taskId (sm w1)) \<and>
           subtask_of taskId (st_id st) (sm w1) = subtask_of taskId (st_id st) (sm w) \<and>
           subtask_of taskId (st_id st) (sm w') = subtask_of taskId (st_id st) (sm w2) \<and>
           agents w1 = agents w \<and>
           posts w1 = posts w @ n1 \<and> posts w' = posts w2 @ n3 \<and>
           (\<forall>rq\<in>set n1 \<union> set n3. st_id (rq_subtask rq) \<noteq> st_id st)"
proof -
  have all: "set (map st_id (pre @ st # post)) \<subseteq> set (subtask_ids taskId (sm w))"
    using sorted_ids(1) [OF split] ids by simp
  have d: "distinct (map st_id (pre @ st # post))"
    using sorted_ids(2) [OF split dist] .
  have npre: "st_id st \<notin> set (map st_id pre)" and npost: "st_id st \<notin> set (map st_id post)"
    using d by auto
  from all have "set (map st_id pre) \<subseteq> set (subtask_ids taskId (sm w))" by simp
  from loop_ok [OF this, where cfg = cfg and e = e and res = Map.empty] obtain res1 w1 where
    l1: "subtask_loop cfg e taskId pre Map.empty w = Returned res1 w1"
    and i1: "subtask_ids taskId (sm w1) = subtask_ids taskId (sm w)"
    and o1: "\<forall>j. j \<notin> set (map st_id pre) \<longrightarrow>
               subtask_of taskId j (sm w1) = subtask_of taskId j (sm w)"
    by blast
  from all i1 have present: "st_id st \<in> set (subtask_ids taskId (sm w1))" by simp
  from step_ok [OF present, where cfg = cfg and e = e and res = res1] obtain res2 w2 where
    s2: "subtask_step cfg e taskId st res1 w1 = Returned res2 w2"
    and i2: "subtask_ids taskId (sm w2) = subtask_ids taskId (sm w1)"
    by blast
  from all i1 i2 have "set (map st_id post) \<subseteq> set (subtask_ids taskId (sm w2))" by simp
  from loop_ok [OF this, where cfg = cfg and e = e and res = res2] obtain res' w' where
    l3: "subtask_loop cfg e taskId post res2 w2 = Returned res' w'"
    and o3: "\<forall>j. j \<notin> set (map st_id post) \<longrightarrow>
               subtask_of taskId j (sm w') = subtask_of taskId j (sm w2)"
    by blast
  have run: "executeSubtasks cfg e taskId sts w = Returned res' w'"
    using l1 s2 l3 by (simp add: executeSubtasks_def split loop_append)
  from loop_posts_ids [of cfg e taskId pre Map.empty w] l1 obtain n1 where
    p1: "posts w1 = posts w @ n1"
    and q1: "\<forall>rq\<in>set n1. st_id (rq_subtask rq) \<in> set (map st_id pre)"
    by auto
  from loop_posts_ids [of cfg e taskId post res2 w2] l3 obtain n3 where
    p3: "posts w' = posts w2 @ n3"
    and q3: "\<forall>rq\<in>set n3. st_id (rq_subtask rq) \<in> set (map st_id post)"
    by auto
  have "\<forall>rq\<in>set n1 \<union> set n3. st_id (rq_subtask rq) \<noteq> st_id st"
  proof
    fix rq assume "rq \<in> set n1 \<union> set n3"
    then consider "rq \<in> set n1" | "rq \<in> set n3" by auto
    then show "st_id (rq_subtask rq) \<noteq> st_id st"
    proof cases
      case 1
      with q1 have "st_id (rq_subtask rq) \<in> set (map st_id pre)" by simp
      with npre show ?thesis by metis
    next
      case 2
      with q3 have "st_id (rq_subtask rq) \<in> set (map st_id post)" by simp
      with npost show ?thesis by metis
    qed
  qed
  moreover have "agents w1 = agents w"
    using loop_agents [of cfg e taskId pre Map.empty w] l1 by simp
  ultimately show ?thesis
    using l1 s2 l3 run present o1 o3 npre npost p1 p3 by blast
qed

section \<open>The record of the subtask an iteration handles\<close>

lemma mark_fields [simp]:
  "st_status (mark s now r x) = s"
  "st_result (mark s now None x) = st_result x"
  "st_result (mark s now (Some j) x) = (if truthy j then Some j else st_result x)"
  "st_type (mark s now r x) = st_type x"
  "st_capability (mark s now r x) = st_capability x"
  "st_priority (mark s now r x) = st_priority x"
  "st_dependsOn (mark s now r x) = st_dependsOn x"
  by (simp_all add: mark_def set_result_def split: option.split)

lemma truthy_errors [simp]: "truthy no_agent_error" "truthy (error_json err)"
  by (simp_all add: no_agent_error_def error_json_def)

lemma present_subtask:
  assumes "subtaskId \<in> set (subtask_ids taskId s)"
  shows "\<exists>x. subtask_of taskId subtaskId s = Some x"
proof (cases "tasks s taskId")
  case None
  with assms show ?thesis by (simp add: subtask_ids_def)
next
  case (Some task)
  with assms have "subtaskId \<in> set (map st_id (t_subtasks task))"
    by (simp add: subtask_ids_def)
  then have "find (\<lambda>x. st_id x = subtaskId) (t_subtasks task) \<noteq> None"
    by (simp add: find_None_iff image_iff) metis
  with Some show ?thesis by (simp add: subtask_of_def)
qed


lemma step_failed_own:
  assumes present: "st_id st \<in> set (subtask_ids taskId (sm w))"
    and met: "dependenciesMet st res"
    and found: "findAgentsByCapability (st_capability st) (agents w) = agent # rest"
    and out: "response_result (fetch e (length (posts w))
                (request_for cfg taskId st res agent (clock e (length (posts w))))) = Inl err"
  shows "\<exists>w' x. subtask_step cfg e taskId st res w = Returned res w' \<and>
           posts w' = posts w @ [request_for cfg taskId st res agent (clock e (length (posts w)))] \<and>
           subtask_of taskId (st_id st) (sm w') = Some x \<and>
           st_status x = Failed \<and> st_result x = Some (error_json err)"
proof -
  from step_delegate_failed [OF present met found out] obtain s1 s2 where
    u1: "updateSubtask (clock e (length (posts w))) taskId (st_id st) InProgress None (sm w) = Inr s1"
    and u2: "updateSubtask (clock e (Suc (length (posts w)))) taskId (st_id st) Failed
               (Some (error_json err)) s1 = Inr s2"
    and r: "subtask_step cfg e taskId st res w =
              Returned res (w\<lparr>sm := s2,
                posts := posts w @ [request_for cfg taskId st res agent (clock e (length (posts w)))]\<rparr>)"
    by blast
  from present_subtask [OF present] obtain x0 where
    x0: "subtask_of taskId (st_id st) (sm w) = Some x0" by blast
  have "subtask_of taskId (st_id st) s2 =
      Some (mark Failed (clock e (Suc (length (posts w)))) (Some (error_json err))
             (mark InProgress (clock e (length (posts w))) None x0))"
    using updateSubtask_effect(2) [OF u1] updateSubtask_effect(2) [OF u2] x0 by simp
  with r show ?thesis by simp
qed

lemma step_completed_own:
  assumes present: "st_id st \<in> set (subtask_ids taskId (sm w))"
    and met: "dependenciesMet st res"
    and found: "findAgentsByCapability (st_capability st) (agents w) = agent # rest"
    and out: "response_result (fetch e (length (posts w))
                (request_for cfg taskId st res agent (clock e (length (posts w))))) = Inr j"
  shows "\<exists>w' x x0. subtask_step cfg e taskId st res w = Returned (res(st_type st \<mapsto> j)) w' \<and>
           posts w' = posts w @ [request_for cfg taskId st res agent (clock e (length (posts w)))] \<and>
           subtask_of taskId (st_id st) (sm w) = Some x0 \<and>
           subtask_of taskId (st_id st) (sm w') = Some x \<and>
           st_status x = Completed \<and>
           st_result x = (if truthy j then Some j else st_result x0)"
proof -
  from step_delegate_completed [OF present met found out] obtain s1 s2 s3 where
    u1: "updateSubtask (clock e (length (posts w))) taskId (st_id st) InProgress None (sm w) = Inr s1"
    and u2: "updateSubtask (clock e (Suc (length (posts w)))) taskId (st_id st) Completed
               (Some j) s1 = Inr s2"
    and u3: "storeResult (clock e (Suc (length (posts w)))) taskId (ag_name agent) j s2 = Inr s3"
    and r: "subtask_step cfg e taskId st res w =
              Returned (res(st_type st \<mapsto> j)) (w\<lparr>sm := s3,
                posts := posts w @ [request_for cfg taskId st res agent (clock e (length (posts w)))]\<rparr>)"
    by blast
  from present_subtask [OF present] obtain x0 where
    x0: "subtask_of taskId (st_id st) (sm w) = Some x0" by blast
  have "subtask_of taskId (st_id st) s3 =
      Some (mark Completed (clock e (Suc (length (posts w)))) (Some j)
             (mark InProgress (clock e (length (posts w))) None x0))"
    using updateSubtask_effect(2) [OF u1] updateSubtask_effect(2) [OF u2]
      storeResult_effect(2) [OF u3] x0 by simp
  with r x0 show ?thesis by simp
qed

section \<open>Delegation\<close>


lemma retryAttempts_unused_try:
  "try_delegate (cfg\<lparr>retryAttempts := n\<rparr>) e taskId st agent res w =
   try_delegate cfg e taskId st agent res w"
  by (simp add: try_delegate_def delegateTask_def)

lemma retryAttempts_unused_step:
  "subtask_step (cfg\<lparr>retryAttempts := n\<rparr>) e taskId st res w = subtask_step cfg e taskId st res w"
  by (simp add: subtask_step_def retryAttempts_unused_try cong: list.case_cong sum.case_cong)

lemma retryAttempts_unused_loop:
  "subtask_loop (cfg\<lparr>retryAttempts := n\<rparr>) e taskId xs res w = subtask_loop cfg e taskId xs res w"
  by (induction xs arbitrary: res w)
    (simp_all add: retryAttempts_unused_step cong: loop_result.case_cong)

lemma request_for_fields [simp]:
  "rq_url (request_for cfg taskId st res agent now) = ag_url agent @ ''/task''"
  "rq_timeout (request_for cfg taskId st res agent now) = taskTimeout cfg"
  "rq_taskId (request_for cfg taskId st res agent now) = taskId"
  "st_id (rq_subtask (request_for cfg taskId st res agent now)) = st_id st"
  "st_type (rq_subtask (request_for cfg taskId st res agent now)) = st_type st"
  "rq_previousResults (request_for cfg taskId st res agent now) = previousResults st res"
  by (simp_all add: request_for_def)

lemma step_delegated:
  assumes present: "st_id st \<in> set (subtask_ids taskId (sm w))"
    and met: "dependenciesMet st res"
    and found: "findAgentsByCapability (st_capability st) (agents w) = agent # rest"
  shows "\<exists>res' w' x. subtask_step cfg e taskId st res w = Returned res' w' \<and>
           posts w' = posts w @ [request_for cfg taskId st res agent (clock e (length (posts w)))] \<and>
           subtask_of taskId (st_id st) (sm w') = Some x \<and>
           (\<forall>err. response_result (fetch e (length (posts w))
                     (request_for cfg taskId st res agent (clock e (length (posts w))))) = Inl err \<longrightarrow>
              res' = res \<and> st_status x = Failed \<and> st_result x = Some (error_json err)) \<and>
           (\<forall>j. response_result (fetch e (length (posts w))
                     (request_for cfg taskId st res agent (clock e (length (posts w))))) = Inr j \<longrightarrow>
              res' = res(st_type st \<mapsto> j) \<and> st_status x = Completed \<and>
              (truthy j \<longrightarrow> st_result x = Some j))"
proof (cases "response_result (fetch e (length (posts w))
                (request_for cfg taskId st res agent (clock e (length (posts w)))))")
  case (Inl err)
  from step_failed_own [OF present met found Inl] obtain w' x where
    "subtask_step cfg e taskId st res w = Returned res w'"
    "posts w' = posts w @ [request_for cfg taskId st res agent (clock e (length (posts w)))]"
    "subtask_of taskId (st_id st) (sm w') = Some x"
    "st_status x = Failed" "st_result x = Some (error_json err)"
    by blast
  with Inl show ?thesis by simp
next
  case (Inr j)
  from step_completed_own [OF present met found Inr] obtain w' x x0 where
    "subtask_step cfg e taskId st res w = Returned (res(st_type st \<mapsto> j)) w'"
    "posts w' = posts w @ [request_for cfg taskId st res agent (clock e (length (posts w)))]"
    "subtask_of taskId (st_id st) (sm w) = Some x0"
    "subtask_of taskId (st_id st) (sm w') = Some x"
    "st_status x = Completed"
    "st_result x = (if truthy j then Some j else st_result x0)"
    by (elim exE conjE)
  with Inr show ?thesis by simp
qed

section \<open>The handler's run\<close>




lemma prepared_fields [simp]:
  "posts (prepared_world e taskId query depth w) = posts w"
  "agents (prepared_world e taskId query depth w) = agents w"
  "task_status taskId (sm (prepared_world e taskId query depth w)) = Some InProgress"
  by (simp_all add: prepared_world_def task_status_def research_task_def)


section \<open>Where results come from, and the order of the requests\<close>








section \<open>Summarising after research\<close>



section \<open>Stored names\<close>

lemma map_set_values: "set (map snd (map_set k v ps)) \<subseteq> insert v (set (map snd ps))"
  by (induction ps) auto

lemma register_POST_cases:
  "snd (register_POST rq sg) = sg \<or>
   (\<exists>name a. name \<noteq> [] \<and> \<not> blank name \<and> length name \<le> 50 \<and> a_name a = name \<and>
      snd (register_POST rq sg) = addAgent a sg)"
proof (cases "rg_body rq")
  case None
  then show ?thesis by (simp add: register_POST_def)
next
  case (Some b)
  show ?thesis
  proof (cases "get_name b")
    case None
    with Some show ?thesis by (cases b) (simp_all add: register_POST_def)
  next
    case n: (Some v)
    then obtain kvs where b: "b = JObj kvs" by (cases b) simp_all
    show ?thesis
    proof (cases v)
      case (JStr name)
      show ?thesis
      proof (cases "findAgentByName name sg")
        case None
        with Some b n JStr show ?thesis
          by (simp add: register_POST_def Let_def) (metis agent.select_convs(2) not_le)
      next
        case (Some a)
        with \<open>rg_body rq = Some b\<close> b n JStr show ?thesis
          by (simp add: register_POST_def)
      qed
    qed (use Some b n in \<open>simp_all add: register_POST_def\<close>)
  qed
qed

lemma register_POST_names_checked:
  assumes "names_checked sg"
  shows "names_checked (snd (register_POST rq sg))"
proof -
  from register_POST_cases [of rq sg]
  consider "snd (register_POST rq sg) = sg"
    | name a where "name \<noteq> []" "\<not> blank name" "length name \<le> 50" "a_name a = name"
        "snd (register_POST rq sg) = addAgent a sg"
    by blast
  then show ?thesis
  proof cases
    case 1
    with assms show ?thesis by simp
  next
    case 2
    have sub: "set (map snd (sg_agents (addAgent a sg))) \<subseteq>
        insert a (set (map snd (sg_agents sg)))"
      using map_set_values [of "a_id a" a "sg_agents sg"] by (simp add: addAgent_def)
    have old: "\<forall>x\<in>set (map snd (sg_agents sg)).
        a_name x \<noteq> [] \<and> \<not> blank (a_name x) \<and> length (a_name x) \<le> 50"
      using assms unfolding names_checked_def list_all_iff .
    have "\<forall>x\<in>set (map snd (sg_agents (addAgent a sg))).
        a_name x \<noteq> [] \<and> \<not> blank (a_name x) \<and> length (a_name x) \<le> 50"
    proof
      fix x assume "x \<in> set (map snd (sg_agents (addAgent a sg)))"
      with sub have "x = a \<or> x \<in> set (map snd (sg_agents sg))" by blast
      then show "a_name x \<noteq> [] \<and> \<not> blank (a_name x) \<and> length (a_name x) \<le> 50"
      proof
        assume "x = a"
        with 2 show ?thesis by simp
      next
        assume "x \<in> set (map snd (sg_agents sg))"
        with old show ?thesis by blast
      qed
    qed
    then show ?thesis
      unfolding names_checked_def list_all_iff 2(5) .
  qed
qed

lemma register_all_names_checked:
  "names_checked sg \<Longrightarrow> names_checked (register_all rqs sg)"
  by (induction rqs arbitrary: sg) (simp_all add: register_POST_names_checked)

lemma new_storage_names_checked: "names_checked new_storage"
  by (simp add: names_checked_def new_storage_def)

section \<open>Unfolding the examples\<close>

text \<open>The definitions a concrete run unfolds.\<close>

lemmas example_defs =
  example_config_def researcher_def summarizer_def fresh_world_def started_world_def
  env_down_def env_500_def env_up_def new_state_manager_def
  research_task_def research_subtasks_def research_subtask_def summarize_subtask_def


section \<open>The delegation loop: how the statements speak of a run\<close>

text \<open>
  In the statements below the sorted subtask list is split as \<open>pre @ st # post\<close>: the
  loop has run over \<open>pre\<close> from the empty results object and has returned \<open>res1\<close> and
  the world \<open>w1\<close>, so \<open>res1\<close> and \<open>w1\<close> are the results and the state when subtask \<open>st\<close>
  is reached.  The task holds the subtasks under distinct ids, as the handler passes
  them.
\<close>

section \<open>Order and dependencies (C1)\<close>



section \<open>Skipped subtasks (C2)\<close>



section \<open>The task is always completed (C3)\<close>



section \<open>No capable agent (C4)\<close>




section \<open>One POST, no retry (C5)\<close>

text \<open>
  C5.  A subtask that is delegated gets exactly one POST in the whole run, sent to the
  first capable agent with the configured \<open>taskTimeout\<close>.  When the request fails, or the
  response status is not 2xx, the results object is left as it was, the subtask ends
  \<open>failed\<close> with \<open>{error: message}\<close>, and the loop goes on with the remaining subtasks
  and returns.  Neither \<open>executeSubtasks\<close> nor \<open>delegateTask\<close> depends on \<open>retryAttempts\<close>.
\<close>

theorem delegated_once_no_retry:
  assumes split: "sort_key st_priority sts = pre @ st # post"
    and ids: "set (map st_id sts) \<subseteq> set (subtask_ids taskId (sm w))"
    and dist: "distinct (map st_id sts)"
    and reach: "subtask_loop cfg e taskId pre Map.empty w = Returned res1 w1"
    and met: "dependenciesMet st res1"
    and found: "findAgentsByCapability (st_capability st) (agents w) = agent # rest"
    and rq: "rq = request_for cfg taskId st res1 agent (clock e (length (posts w1)))"
  shows "(\<exists>res2 w2 res' w' x.
            subtask_step cfg e taskId st res1 w1 = Returned res2 w2 \<and>
            posts w2 = posts w1 @ [rq] \<and>
            rq_url rq = ag_url agent @ ''/task'' \<and> rq_timeout rq = taskTimeout cfg \<and>
            subtask_loop cfg e taskId post res2 w2 = Returned res' w' \<and>
            executeSubtasks cfg e taskId sts w = Returned res' w' \<and>
            filter (\<lambda>r. st_id (rq_subtask r) = st_id st) (drop (length (posts w)) (posts w')) = [rq] \<and>
            subtask_of taskId (st_id st) (sm w') = Some x \<and>
            (\<forall>m. fetch e (length (posts w1)) rq = NetworkFailure m \<longrightarrow>
               res2 = res1 \<and> st_status x = Failed \<and>
               st_result x = Some (JObj [(''error'', JStr m)])) \<and>
            (\<forall>code b. fetch e (length (posts w1)) rq = HttpResponse code b \<longrightarrow>
               \<not> (200 \<le> code \<and> code \<le> 299) \<longrightarrow>
               res2 = res1 \<and> st_status x = Failed \<and>
               st_result x = Some (JObj [(''error'', JStr (''Agent returned '' @ string_of_nat code))]))) \<and>
         executeSubtasks (cfg\<lparr>retryAttempts := n\<rparr>) e taskId sts w =
           executeSubtasks cfg e taskId sts w \<and>
         delegateTask (cfg\<lparr>retryAttempts := n\<rparr>) e taskId taskData prev url w0 =
           delegateTask cfg e taskId taskData prev url w0"
proof -
  from run_split [OF split ids dist, of cfg e] reach obtain res2 w2 res' w' n1 n3 where
    s2: "subtask_step cfg e taskId st res1 w1 = Returned res2 w2"
    and l3: "subtask_loop cfg e taskId post res2 w2 = Returned res' w'"
    and run: "executeSubtasks cfg e taskId sts w = Returned res' w'"
    and present: "st_id st \<in> set (subtask_ids taskId (sm w1))"
    and o3: "subtask_of taskId (st_id st) (sm w') = subtask_of taskId (st_id st) (sm w2)"
    and ag: "agents w1 = agents w"
    and p1: "posts w1 = posts w @ n1" and p3: "posts w' = posts w2 @ n3"
    and other: "\<forall>r\<in>set n1 \<union> set n3. st_id (rq_subtask r) \<noteq> st_id st"
    by auto
  from found ag have found1: "findAgentsByCapability (st_capability st) (agents w1) = agent # rest"
    by simp
  from step_delegated [OF present met found1, where cfg = cfg and e = e] s2 rq obtain x where
    p2: "posts w2 = posts w1 @ [rq]"
    and x: "subtask_of taskId (st_id st) (sm w2) = Some x"
    and bad: "\<forall>err. response_result (fetch e (length (posts w1)) rq) = Inl err \<longrightarrow>
               res2 = res1 \<and> st_status x = Failed \<and> st_result x = Some (error_json err)"
    by auto
  have f1: "filter (\<lambda>r. st_id (rq_subtask r) = st_id st) n1 = []"
    and f3: "filter (\<lambda>r. st_id (rq_subtask r) = st_id st) n3 = []"
    using other by (simp_all add: filter_empty_conv)
  have "drop (length (posts w)) (posts w') = n1 @ [rq] @ n3"
    using p1 p2 p3 by simp
  then have once: "filter (\<lambda>r. st_id (rq_subtask r) = st_id st)
      (drop (length (posts w)) (posts w')) = [rq]"
    using f1 f3 rq by simp
  have net: "\<forall>m. fetch e (length (posts w1)) rq = NetworkFailure m \<longrightarrow>
      res2 = res1 \<and> st_status x = Failed \<and> st_result x = Some (JObj [(''error'', JStr m)])"
  proof (intro allI impI)
    fix m assume "fetch e (length (posts w1)) rq = NetworkFailure m"
    then have "response_result (fetch e (length (posts w1)) rq) = Inl (FetchError m)"
      by (simp add: response_result_def)
    with bad show "res2 = res1 \<and> st_status x = Failed \<and>
        st_result x = Some (JObj [(''error'', JStr m)])"
      by (simp add: error_json_def)
  qed
  have http: "\<forall>code b. fetch e (length (posts w1)) rq = HttpResponse code b \<longrightarrow>
      \<not> (200 \<le> code \<and> code \<le> 299) \<longrightarrow>
      res2 = res1 \<and> st_status x = Failed \<and>
      st_result x = Some (JObj [(''error'', JStr (''Agent returned '' @ string_of_nat code))])"
  proof (intro allI impI)
    fix code b
    assume "fetch e (length (posts w1)) rq = HttpResponse code b"
      and "\<not> (200 \<le> code \<and> code \<le> 299)"
    then have "response_result (fetch e (length (posts w1)) rq) =
        Inl (FetchError (''Agent returned '' @ string_of_nat code))"
      by (simp add: response_result_def response_ok_def)
    with bad show "res2 = res1 \<and> st_status x = Failed \<and>
        st_result x = Some (JObj [(''error'', JStr (''Agent returned '' @ string_of_nat code))])"
      by (simp add: error_json_def)
  qed
  have fields: "rq_url rq = ag_url agent @ ''/task'' \<and> rq_timeout rq = taskTimeout cfg"
    using rq by simp
  have first: "\<exists>res2 w2 res' w' x.
            subtask_step cfg e taskId st res1 w1 = Returned res2 w2 \<and>
            posts w2 = posts w1 @ [rq] \<and>
            rq_url rq = ag_url agent @ ''/task'' \<and> rq_timeout rq = taskTimeout cfg \<and>
            subtask_loop cfg e taskId post res2 w2 = Returned res' w' \<and>
            executeSubtasks cfg e taskId sts w = Returned res' w' \<and>
            filter (\<lambda>r. st_id (rq_subtask r) = st_id st) (drop (length (posts w)) (posts w')) = [rq] \<and>
            subtask_of taskId (st_id st) (sm w') = Some x \<and>
            (\<forall>m. fetch e (length (posts w1)) rq = NetworkFailure m \<longrightarrow>
               res2 = res1 \<and> st_status x = Failed \<and>
               st_result x = Some (JObj [(''error'', JStr m)])) \<and>
            (\<forall>code b. fetch e (length (posts w1)) rq = HttpResponse code b \<longrightarrow>
               \<not> (200 \<le> code \<and> code \<le> 299) \<longrightarrow>
               res2 = res1 \<and> st_status x = Failed \<and>
               st_result x = Some (JObj [(''error'', JStr (''Agent returned '' @ string_of_nat code))]))"
    using s2 p2 fields l3 run once o3 x net http by (intro exI conjI) simp_all
  have "executeSubtasks (cfg\<lparr>retryAttempts := n\<rparr>) e taskId sts w =
      executeSubtasks cfg e taskId sts w"
    by (simp add: executeSubtasks_def retryAttempts_unused_loop)
  moreover have "delegateTask (cfg\<lparr>retryAttempts := n\<rparr>) e taskId taskData prev url w0 =
      delegateTask cfg e taskId taskData prev url w0"
    by (simp add: delegateTask_def)
  ultimately show ?thesis using first by blast
qed

theorem delegated_once_no_retry_witness:
  "sort_key st_priority (research_subtasks 0 ''t'' ''rust'' ''basic'') =
     [] @ research_subtask 0 ''t'' ''rust'' # [] \<and>
   set (map st_id (research_subtasks 0 ''t'' ''rust'' ''basic'')) \<subseteq>
     set (subtask_ids ''t'' (sm (started_world [researcher, summarizer] ''basic''))) \<and>
   distinct (map st_id (research_subtasks 0 ''t'' ''rust'' ''basic'')) \<and>
   subtask_loop example_config env_500 ''t'' [] Map.empty
       (started_world [researcher, summarizer] ''basic'') =
     Returned Map.empty (started_world [researcher, summarizer] ''basic'') \<and>
   dependenciesMet (research_subtask 0 ''t'' ''rust'') Map.empty \<and>
   findAgentsByCapability (st_capability (research_subtask 0 ''t'' ''rust''))
     (agents (started_world [researcher, summarizer] ''basic'')) = researcher # [] \<and>
   fetch env_500 0 (request_for example_config ''t'' (research_subtask 0 ''t'' ''rust'')
       Map.empty researcher 0) = HttpResponse 500 (Malformed ''Unexpected token'') \<and>
   \<not> (200 \<le> (500::nat) \<and> (500::nat) \<le> 299) \<and>
   posts (world_of (executeSubtasks example_config env_500 ''t''
            (research_subtasks 0 ''t'' ''rust'' ''basic'')
            (started_world [researcher, summarizer] ''basic''))) =
     [request_for example_config ''t'' (research_subtask 0 ''t'' ''rust'') Map.empty researcher 0] \<and>
   map_option st_status
     (subtask_of ''t'' ''t-0''
        (sm (world_of (executeSubtasks example_config env_500 ''t''
               (research_subtasks 0 ''t'' ''rust'' ''basic'')
               (started_world [researcher, summarizer] ''basic''))))) = Some Failed \<and>
   map_option st_result
     (subtask_of ''t'' ''t-0''
        (sm (world_of (executeSubtasks example_config env_500 ''t''
               (research_subtasks 0 ''t'' ''rust'' ''basic'')
               (started_world [researcher, summarizer] ''basic''))))) =
     Some (Some (JObj [(''error'', JStr ''Agent returned 500'')]))"
proof -
  let ?w = "started_world [researcher, summarizer] ''basic''"
  let ?sts = "research_subtasks 0 ''t'' ''rust'' ''basic''"
  let ?st = "research_subtask 0 ''t'' ''rust''"
  let ?rq = "request_for example_config ''t'' ?st Map.empty researcher 0"
  have h1: "sort_key st_priority ?sts = [] @ ?st # []"
    by (simp add: example_defs)
  have h2: "set (map st_id ?sts) \<subseteq> set (subtask_ids ''t'' (sm ?w))"
    by (simp add: example_defs subtask_ids_def)
  have h3: "distinct (map st_id ?sts)"
    by (simp add: example_defs)
  have h4: "subtask_loop example_config env_500 ''t'' [] Map.empty ?w = Returned Map.empty ?w"
    by simp
  have h5: "dependenciesMet ?st Map.empty"
    by (simp add: example_defs dependenciesMet_def)
  have h6: "findAgentsByCapability (st_capability ?st) (agents ?w) = researcher # []"
    by (simp add: example_defs findAgentsByCapability_def)
  have h7: "?rq = request_for example_config ''t'' ?st Map.empty researcher
      (clock env_500 (length (posts ?w)))"
    by (simp add: example_defs)
  have h8: "fetch env_500 (length (posts ?w)) ?rq = HttpResponse 500 (Malformed ''Unexpected token'')"
    by (simp add: env_500_def)
  have h9: "\<not> (200 \<le> (500::nat) \<and> (500::nat) \<le> 299)" by simp
  have n: "string_of_nat 500 = ''500''"
    by (simp add: string_of_nat.simps digit_char_def)
  from delegated_once_no_retry [OF h1 h2 h3 h4 h5 h6 h7, THEN conjunct1]
  obtain res2 w2 res' w' x where
    "subtask_step example_config env_500 ''t'' ?st Map.empty ?w = Returned res2 w2"
    and p2: "posts w2 = posts ?w @ [?rq]"
    and "rq_url ?rq = ag_url researcher @ ''/task''"
    and "rq_timeout ?rq = taskTimeout example_config"
    and l3: "subtask_loop example_config env_500 ''t'' [] res2 w2 = Returned res' w'"
    and run: "executeSubtasks example_config env_500 ''t'' ?sts ?w = Returned res' w'"
    and "filter (\<lambda>r. st_id (rq_subtask r) = st_id ?st)
           (drop (length (posts ?w)) (posts w')) = [?rq]"
    and x: "subtask_of ''t'' (st_id ?st) (sm w') = Some x"
    and "\<forall>m. fetch env_500 (length (posts ?w)) ?rq = NetworkFailure m \<longrightarrow>
               res2 = Map.empty \<and> st_status x = Failed \<and>
               st_result x = Some (JObj [(''error'', JStr m)])"
    and bad: "\<forall>code b. fetch env_500 (length (posts ?w)) ?rq = HttpResponse code b \<longrightarrow>
               \<not> (200 \<le> code \<and> code \<le> 299) \<longrightarrow>
               res2 = Map.empty \<and> st_status x = Failed \<and>
               st_result x = Some (JObj [(''error'', JStr (''Agent returned '' @ string_of_nat code))])"
    by (elim exE conjE)
  from bad h8 h9 have "st_status x = Failed"
    and "st_result x = Some (JObj [(''error'', JStr (''Agent returned '' @ string_of_nat 500))])"
    by blast+
  with n x have own: "map_option st_status (subtask_of ''t'' ''t-0'' (sm w')) = Some Failed \<and>
      map_option st_result (subtask_of ''t'' ''t-0'' (sm w')) =
        Some (Some (JObj [(''error'', JStr ''Agent returned 500'')]))"
    by (simp add: research_subtask_def)
  from l3 p2 have "posts w' = [?rq]"
    by (simp add: started_world_def)
  with own run h1 h2 h3 h4 h5 h6 h8 show ?thesis by (simp add: started_world_def)
qed

section \<open>Decomposition (C6, C7)\<close>

text \<open>
  C6.  For depth \<open>basic\<close>, and for any depth other than \<open>detailed\<close> and
  \<open>comprehensive\<close>, \<open>decomposeQuery\<close> returns exactly one subtask; its type is
  \<open>research\<close>, its capability \<open>search\<close> and its priority 1.
\<close>

theorem decomposeQuery_basic:
  "depth \<noteq> ''detailed'' \<Longrightarrow> depth \<noteq> ''comprehensive'' \<Longrightarrow>
   length (decomposeQuery query depth) = 1 \<and>
   map sp_type (decomposeQuery query depth) = [''research''] \<and>
   map sp_capability (decomposeQuery query depth) = [''search''] \<and>
   map sp_priority (decomposeQuery query depth) = [1]"
  by (simp add: decomposeQuery_def)

theorem decomposeQuery_basic_witness:
  "''basic'' \<noteq> ''detailed'' \<and> ''basic'' \<noteq> ''comprehensive'' \<and>
   length (decomposeQuery ''rust'' ''basic'') = 1 \<and>
   map sp_type (decomposeQuery ''rust'' ''basic'') = [''research''] \<and>
   map sp_capability (decomposeQuery ''rust'' ''basic'') = [''search''] \<and>
   map sp_priority (decomposeQuery ''rust'' ''basic'') = [1]"
  using decomposeQuery_basic [of "''basic''" "''rust''"] by simp

text \<open>
  C7.  For depth \<open>detailed\<close> or \<open>comprehensive\<close>, \<open>decomposeQuery\<close> returns exactly two
  subtasks: \<open>research\<close> with priority 1, then \<open>summarize\<close> with priority 2 whose
  dependency list is exactly \<open>['research']\<close>; a \<open>summarize\<close> subtask appears for no
  other depth.
\<close>

theorem decomposeQuery_detailed:
  "(depth = ''detailed'' \<or> depth = ''comprehensive'' \<longrightarrow>
      length (decomposeQuery query depth) = 2 \<and>
      map sp_type (decomposeQuery query depth) = [''research'', ''summarize''] \<and>
      map sp_priority (decomposeQuery query depth) = [1, 2] \<and>
      map sp_dependsOn (decomposeQuery query depth) = [None, Some [''research'']]) \<and>
   ((\<exists>sp\<in>set (decomposeQuery query depth). sp_type sp = ''summarize'') \<longrightarrow>
      depth = ''detailed'' \<or> depth = ''comprehensive'')"
  by (simp add: decomposeQuery_def)

theorem decomposeQuery_detailed_witness:
  "(''detailed'' = ''detailed'' \<or> ''detailed'' = ''comprehensive'') \<and>
   map sp_type (decomposeQuery ''rust'' ''detailed'') = [''research'', ''summarize''] \<and>
   map sp_priority (decomposeQuery ''rust'' ''detailed'') = [1, 2] \<and>
   map sp_dependsOn (decomposeQuery ''rust'' ''detailed'') = [None, Some [''research'']] \<and>
   (\<exists>sp\<in>set (decomposeQuery ''rust'' ''detailed''). sp_type sp = ''summarize'')"
  using decomposeQuery_detailed [of "''detailed''" "''rust''"]
  by (simp add: decomposeQuery_def)

section \<open>The sweep (C8)\<close>

text \<open>
  C8.  \<open>cleanup\<close> deletes a task exactly when its status is \<open>completed\<close> or \<open>failed\<close>
  and its last update is more than \<open>maxAge\<close> old (one hour by default), so a pending or
  in-progress task is never deleted; it removes no entry of the agent-status map and
  only sets to \<open>offline\<close> the status of an agent last seen more than 60 seconds ago.
\<close>

theorem cleanup_spec:
  "(\<forall>k task. tasks s k = Some task \<longrightarrow>
      tasks (cleanup maxAge now s) k =
        (if (t_status task = Completed \<or> t_status task = Failed) \<and> now - t_updatedAt task > maxAge
         then None else Some task)) \<and>
   (\<forall>k task. tasks s k = Some task \<longrightarrow> (t_status task = Pending \<or> t_status task = InProgress) \<longrightarrow>
      tasks (cleanup maxAge now s) k = Some task) \<and>
   (\<forall>k. tasks s k = None \<longrightarrow> tasks (cleanup maxAge now s) k = None) \<and>
   dom (agentStatus (cleanup maxAge now s)) = dom (agentStatus s) \<and>
   (\<forall>k a. agentStatus s k = Some a \<longrightarrow>
      agentStatus (cleanup maxAge now s) k =
        Some (if now - as_lastSeen a > 60000 then a\<lparr>as_status := Offline\<rparr> else a)) \<and>
   cleanup_default now s = cleanup 3600000 now s"
  by (auto simp: cleanup_def sweep_task_def sweep_agent_def cleanup_default_def dom_def)

theorem cleanup_spec_witness:
  "map_option t_status (tasks example_state ''t2'') = Some Completed \<and>
   tasks (cleanup_default 3600001 example_state) ''t2'' = None \<and>
   tasks (cleanup_default 3600000 example_state) ''t2'' = tasks example_state ''t2'' \<and>
   map_option t_status (tasks example_state ''t1'') = Some InProgress \<and>
   tasks (cleanup_default 3600001 example_state) ''t1'' = tasks example_state ''t1'' \<and>
   map_option as_status (agentStatus example_state ''Researcher'') = Some Online \<and>
   map_option as_status (agentStatus (cleanup_default 60001 example_state) ''Researcher'') = Some Offline \<and>
   map_option as_status (agentStatus (cleanup_default 60000 example_state) ''Researcher'') = Some Online"
  using cleanup_spec [of example_state 3600000 3600001]
    cleanup_spec [of example_state 3600000 3600000]
    cleanup_spec [of example_state 3600000 60001]
    cleanup_spec [of example_state 3600000 60000]
  by (simp add: example_state_def example_task_def)

section \<open>Registration under a taken name (C9)\<close>

text \<open>
  C9.  Agents are only ever stored by the registration handler.  In a storage whose
  agents are those left by any sequence of registration requests, a request whose
  \<open>name\<close> is the name of a registered agent is answered with status 409 and error
  \<open>Name already taken\<close>, and the storage is left as it was: no agent and no API key is
  created.  409 is none of 400, 401, 403, 404 and 500.
\<close>

theorem duplicate_name_conflict:
  assumes reach: "sg_agents sg = sg_agents (register_all rqs new_storage)"
    and body: "rg_body rq = Some b" "get_name b = Some (JStr name)"
    and taken: "\<exists>a\<in>set (map snd (sg_agents sg)). a_name a = name"
  shows "register_POST rq sg = (RegError 409 ''Name already taken'', sg) \<and>
         register_status (fst (register_POST rq sg)) = 409 \<and>
         register_status (fst (register_POST rq sg)) \<notin> {400, 401, 403, 404, 500}"
proof -
  have "names_checked (register_all rqs new_storage)"
    by (rule register_all_names_checked) (rule new_storage_names_checked)
  then have "names_checked sg"
    unfolding names_checked_def reach .
  with taken have ok: "name \<noteq> []" "\<not> blank name" "length name \<le> 50"
    unfolding names_checked_def list_all_iff by auto
  from taken have "find (\<lambda>a. a_name a = name) (map snd (sg_agents sg)) \<noteq> None"
    unfolding find_None_iff by blast
  then obtain a where found: "findAgentByName name sg = Some a"
    by (auto simp: findAgentByName_def)
  from body(2) obtain kvs where b: "b = JObj kvs" by (cases b) simp_all
  have "register_POST rq sg = (RegError 409 ''Name already taken'', sg)"
    using body b ok found by (simp add: register_POST_def)
  then show ?thesis by simp
qed

theorem duplicate_name_conflict_witness:
  "map (a_name \<circ> snd)
     (sg_agents (register_all [example_register ''TestAgent123'' ''u1'' ''k-1''] new_storage)) =
     [''TestAgent123''] \<and>
   get_name (JObj [(''name'', JStr ''TestAgent123'')]) = Some (JStr ''TestAgent123'') \<and>
   register_POST (example_register ''TestAgent123'' ''u2'' ''k-2'')
       (register_all [example_register ''TestAgent123'' ''u1'' ''k-1''] new_storage) =
     (RegError 409 ''Name already taken'',
      register_all [example_register ''TestAgent123'' ''u1'' ''k-1''] new_storage) \<and>
   map fst (sg_agents (snd (register_POST (example_register ''TestAgent123'' ''u2'' ''k-2'')
       (register_all [example_register ''TestAgent123'' ''u1'' ''k-1''] new_storage)))) =
     [''agent_u1'']"
proof -
  let ?sg = "register_all [example_register ''TestAgent123'' ''u1'' ''k-1''] new_storage"
  have sg: "sg_agents ?sg =
      [(''agent_u1'', \<lparr>a_id = ''agent_u1'', a_name = ''TestAgent123'', a_apiKey = ''sk_test_k1'',
          a_createdAt = ''2026-01-01T00:00:00.000Z''\<rparr>)]"
    by (simp add: example_register_def register_POST_def new_storage_def findAgentByName_def
          blank_def is_space_def addAgent_def strip_dashes_def Let_def)
  have h2: "rg_body (example_register ''TestAgent123'' ''u2'' ''k-2'') =
      Some (JObj [(''name'', JStr ''TestAgent123'')])"
    by (simp add: example_register_def)
  have h3: "get_name (JObj [(''name'', JStr ''TestAgent123'')]) = Some (JStr ''TestAgent123'')"
    by simp
  have h4: "\<exists>a\<in>set (map snd (sg_agents ?sg)). a_name a = ''TestAgent123''"
    unfolding sg by simp
  from duplicate_name_conflict [OF refl h2 h3 h4]
  have "register_POST (example_register ''TestAgent123'' ''u2'' ''k-2'') ?sg =
      (RegError 409 ''Name already taken'', ?sg)"
    by simp
  moreover have "map (a_name \<circ> snd) (sg_agents ?sg) = [''TestAgent123'']"
    and "map fst (sg_agents ?sg) = [''agent_u1'']"
    unfolding sg by simp_all
  ultimately show ?thesis using h3 by simp
qed

section \<open>Completeness of subtasks (C10)\<close>

text \<open>
  C10.  \<open>areSubtasksComplete\<close> is false for a task id that is not in the task map and
  for a task without subtasks; for a task with at least one subtask it is true exactly
  when every subtask is \<open>completed\<close> or \<open>failed\<close>.
\<close>

theorem areSubtasksComplete_spec:
  "(tasks s taskId = None \<longrightarrow> \<not> areSubtasksComplete taskId s) \<and>
   (\<forall>task. tasks s taskId = Some task \<longrightarrow>
      (t_subtasks task = [] \<longrightarrow> \<not> areSubtasksComplete taskId s) \<and>
      (t_subtasks task \<noteq> [] \<longrightarrow>
         areSubtasksComplete taskId s =
           (\<forall>st\<in>set (t_subtasks task). st_status st = Completed \<or> st_status st = Failed)))"
  by (simp add: areSubtasksComplete_def list_all_iff)

theorem areSubtasksComplete_spec_witness:
  "tasks example_state ''t0'' = None \<and> \<not> areSubtasksComplete ''t0'' example_state \<and>
   map_option t_subtasks (tasks example_state ''t2'') = Some [] \<and>
   \<not> areSubtasksComplete ''t2'' example_state \<and>
   map_option (map st_status \<circ> t_subtasks) (tasks example_state ''t1'') = Some [Completed, Failed] \<and>
   areSubtasksComplete ''t1'' example_state \<and>
   map_option (map st_status \<circ> t_subtasks) (tasks example_state ''t3'') = Some [Completed, Pending] \<and>
   \<not> areSubtasksComplete ''t3'' example_state"
  using areSubtasksComplete_spec [of example_state "''t0''"]
    areSubtasksComplete_spec [of example_state "''t1''"]
    areSubtasksComplete_spec [of example_state "''t2''"]
    areSubtasksComplete_spec [of example_state "''t3''"]
  by (simp add: example_state_def example_task_def example_subtask_def)

end
